theory Spec2Isabelle
  imports Complex_Main
begin

section \<open>Text helpers of the host language\<close>

text \<open>
  The engine of \<^verbatim>\<open>src/js/executionEngine.js\<close> works on JavaScript strings. A source
  text is modelled as a \<^typ>\<open>string\<close>; each \<^typ>\<open>char\<close> stands for one code unit
  below 256. The helpers below are the built-in string and array methods the engine
  calls: \<^verbatim>\<open>split('\n')\<close>, \<^verbatim>\<open>join('\n')\<close>, \<^verbatim>\<open>trim()\<close>, \<^verbatim>\<open>startsWith\<close>,
  \<^verbatim>\<open>includes\<close> and the decimal rendering of a non-negative integer inside a
  template literal.
\<close>

definition newline :: char where
  "newline = CHR 0x0A"

text \<open>
  \<^verbatim>\<open>s.split('\n')\<close>, scanning the text with the characters of the line being read;
  the empty text yields one empty line.
\<close>

fun split_from :: "string \<Rightarrow> string \<Rightarrow> string list" where
  "split_from cur [] = [cur]"
| "split_from cur (c # cs) =
     (if c = newline then cur # split_from [] cs else split_from (cur @ [c]) cs)"

definition split_lines :: "string \<Rightarrow> string list" where
  "split_lines s = split_from [] s"

text \<open>\<^verbatim>\<open>lines.join('\n')\<close>.\<close>

fun join_lines :: "string list \<Rightarrow> string" where
  "join_lines [] = []"
| "join_lines [l] = l"
| "join_lines (l # m # ls) = l @ newline # join_lines (m # ls)"

text \<open>
  The white space and line terminators that \<^verbatim>\<open>trim()\<close> strips, among the code
  units below 256: tab, line feed, vertical tab, form feed, carriage return, space and
  no-break space.
\<close>

definition is_ws :: "char \<Rightarrow> bool" where
  "is_ws c \<longleftrightarrow> c \<in> {CHR 0x09, CHR 0x0A, CHR 0x0B, CHR 0x0C, CHR 0x0D, CHR 0x20, CHR 0xA0}"

definition trim :: "string \<Rightarrow> string" where
  "trim s = rev (dropWhile is_ws (rev (dropWhile is_ws s)))"

definition starts_with :: "string \<Rightarrow> string \<Rightarrow> bool" where
  "starts_with p s \<longleftrightarrow> take (length p) s = p"

fun includes_str :: "string \<Rightarrow> string \<Rightarrow> bool" where
  "includes_str sub [] \<longleftrightarrow> sub = []"
| "includes_str sub (c # cs) \<longleftrightarrow> starts_with sub (c # cs) \<or> includes_str sub cs"

definition digit_char :: "nat \<Rightarrow> char" where
  "digit_char d = ''0123456789'' ! d"

fun show_nat :: "nat \<Rightarrow> string" where
  "show_nat n = (if n < 10 then [digit_char n] else show_nat (n div 10) @ [digit_char (n mod 10)])"

declare show_nat.simps [simp del]

section \<open>The instrumenter\<close>

text \<open>
  \<^verbatim>\<open>instrumentCode(code)\<close>: the callback of \<^verbatim>\<open>lines.map\<close> receives the line and its
  0-based index.
\<close>

definition instrument_line :: "nat \<Rightarrow> string \<Rightarrow> string" where
  "instrument_line idx line =
     (if trim line = [] \<or> starts_with ''//'' (trim line) then line
      else ''__track('' @ show_nat (idx + 1) @ ''); '' @ line)"

definition instrumentCode :: "string \<Rightarrow> string" where
  "instrumentCode code =
     (let lines = split_lines code;
          instrumented = map (\<lambda>(idx, line). instrument_line idx line) (enumerate 0 lines)
      in join_lines instrumented)"

section \<open>Values of the evaluated program\<close>

text \<open>
  The hooks receive and the evaluated program returns or throws arbitrary values of the
  host language. \<open>jsval\<close> keeps the kinds on which the engine's own expressions behave
  differently: \<^verbatim>\<open>error.message\<close> in the \<^verbatim>\<open>catch\<close> block of \<^verbatim>\<open>execute\<close> and
  \<^verbatim>\<open>args.join(' ')\<close> in the console substitute. \<open>JNum\<close> is an integer-valued
  number, \<open>JError name message\<close> an error object.
\<close>

datatype jsval =
    JUndefined
  | JNull
  | JBool bool
  | JNum int
  | JStr string
  | JSymbol string
  | JError string string

definition show_int :: "int \<Rightarrow> string" where
  "show_int i = (if i < 0 then ''-'' @ show_nat (nat (- i)) else show_nat (nat i))"

text \<open>
  String conversion of a value; \<open>Inl\<close> is the error it raises. A symbol cannot be
  converted. An error object prints as its name, a colon and its message.
\<close>

fun to_string :: "jsval \<Rightarrow> jsval + string" where
  "to_string JUndefined = Inr ''undefined''"
| "to_string JNull = Inr ''null''"
| "to_string (JBool b) = Inr (if b then ''true'' else ''false'')"
| "to_string (JNum i) = Inr (show_int i)"
| "to_string (JStr s) = Inr s"
| "to_string (JSymbol d) = Inl (JError ''TypeError'' ''Cannot convert a Symbol value to a string'')"
| "to_string (JError n m) = Inr (if n = [] then m else if m = [] then n else n @ '': '' @ m)"

text \<open>
  \<^verbatim>\<open>args.join(' ')\<close>: \<^verbatim>\<open>undefined\<close> and \<^verbatim>\<open>null\<close> elements give the empty string,
  every other element is converted, left to right, and the first failing conversion
  aborts the join.
\<close>

definition join_element :: "jsval \<Rightarrow> jsval + string" where
  "join_element v = (if v = JUndefined \<or> v = JNull then Inr [] else to_string v)"

fun join_args :: "jsval list \<Rightarrow> jsval + string" where
  "join_args [] = Inr []"
| "join_args [v] = join_element v"
| "join_args (v # w # vs) =
     (case join_element v of
        Inl e \<Rightarrow> Inl e
      | Inr s \<Rightarrow> (case join_args (w # vs) of Inl e \<Rightarrow> Inl e | Inr t \<Rightarrow> Inr (s @ '' '' @ t)))"

text \<open>
  \<^verbatim>\<open>error.message\<close> on a caught value: reading a property of \<^verbatim>\<open>undefined\<close> or
  \<^verbatim>\<open>null\<close> raises a type error (\<open>Inl\<close>); an error object has its message; any other
  value has no such property and the expression is \<^verbatim>\<open>undefined\<close> (\<open>None\<close>).
\<close>

fun message_of :: "jsval \<Rightarrow> jsval + string option" where
  "message_of JUndefined =
     Inl (JError ''TypeError'' ''Cannot read properties of undefined (reading 'message')'')"
| "message_of JNull =
     Inl (JError ''TypeError'' ''Cannot read properties of null (reading 'message')'')"
| "message_of (JError n m) = Inr (Some m)"
| "message_of v = Inr None"

section \<open>The execution state\<close>

text \<open>
  Line numbers and the step counter are natural numbers: the instrumenter passes the
  hook positive integer literals, and the counter starts at 0 and is only incremented.
\<close>

text \<open>
  The four shapes of object pushed on \<^verbatim>\<open>executionHistory\<close>, told apart in the source
  by their \<^verbatim>\<open>type\<close> field: \<^verbatim>\<open>'line'\<close>, \<^verbatim>\<open>'variable'\<close>, \<^verbatim>\<open>'console'\<close> and
  \<^verbatim>\<open>'error'\<close>. All of them carry \<^verbatim>\<open>step\<close> and \<^verbatim>\<open>line\<close>.
\<close>

datatype entry =
    LineEntry (entry_step: nat) (entry_line: nat) (entry_variables: "string \<rightharpoonup> jsval")
  | VariableEntry (entry_step: nat) (entry_name: string) (entry_value: jsval) (entry_line: nat)
  | ConsoleEntry (entry_step: nat) (entry_output: string) (entry_line: nat)
  | ErrorEntry (entry_step: nat) (entry_error: "string option") (entry_line: nat)

text \<open>\<^verbatim>\<open>entry.type === 'line'\<close>\<close>

fun is_line :: "entry \<Rightarrow> bool" where
  "is_line (LineEntry s l vs) = True"
| "is_line e = False"

record execution_state =
  currentLine :: nat
  variables :: "string \<rightharpoonup> jsval"
  callStack :: "jsval list"
  executionHistory :: "entry list"
  breakpoints :: "nat set"
  isPaused :: bool
  step :: nat

record engine =
  code :: string
  language :: string
  executionState :: execution_state

definition initial_state :: execution_state where
  "initial_state =
     \<lparr>currentLine = 0, variables = Map.empty, callStack = [], executionHistory = [],
      breakpoints = {}, isPaused = False, step = 0\<rparr>"

text \<open>The constructor.\<close>

definition new_engine :: engine where
  "new_engine = \<lparr>code = [], language = ''javascript'', executionState = initial_state\<rparr>"

text \<open>\<^verbatim>\<open>reset()\<close> replaces the whole state object, its \<^verbatim>\<open>breakpoints\<close> set included.\<close>

definition reset :: "engine \<Rightarrow> engine" where
  "reset eng = eng\<lparr>executionState := initial_state\<rparr>"

definition setCode :: "string \<Rightarrow> string \<Rightarrow> engine \<Rightarrow> engine" where
  "setCode c l eng = reset (eng\<lparr>code := c, language := l\<rparr>)"

definition addBreakpoint :: "nat \<Rightarrow> engine \<Rightarrow> engine" where
  "addBreakpoint lineNumber eng =
     eng\<lparr>executionState :=
       (executionState eng)\<lparr>breakpoints := insert lineNumber (breakpoints (executionState eng))\<rparr>\<rparr>"

definition removeBreakpoint :: "nat \<Rightarrow> engine \<Rightarrow> engine" where
  "removeBreakpoint lineNumber eng =
     eng\<lparr>executionState :=
       (executionState eng)\<lparr>breakpoints := breakpoints (executionState eng) - {lineNumber}\<rparr>\<rparr>"

definition stepNext :: "engine \<Rightarrow> engine" where
  "stepNext eng = eng\<lparr>executionState := (executionState eng)\<lparr>isPaused := False\<rparr>\<rparr>"

section \<open>The hooks of the execution context\<close>

text \<open>
  Each hook of \<^verbatim>\<open>createExecutionContext\<close> takes the state and returns the new state
  together with \<open>None\<close> when it returns to the program or \<open>Some e\<close> when it throws
  \<open>e\<close>. In every pushed object literal the \<^verbatim>\<open>step\<close> property comes first, so
  \<^verbatim>\<open>step++\<close> is evaluated before the other properties and before the push.
\<close>

definition track :: "nat \<Rightarrow> execution_state \<Rightarrow> execution_state \<times> jsval option" where
  "track lineNum st =
     (let st1 = st\<lparr>currentLine := lineNum\<rparr>;
          st2 = st1\<lparr>step := step st1 + 1\<rparr>;
          st3 = st2\<lparr>executionHistory :=
                  executionHistory st2 @ [LineEntry (step st1) lineNum (variables st2)]\<rparr>
      in if lineNum \<in> breakpoints st3
         then (st3\<lparr>isPaused := True\<rparr>,
               Some (JError ''Error'' (''BREAKPOINT at line '' @ show_nat lineNum)))
         else (st3, None))"

definition captureVar :: "string \<Rightarrow> jsval \<Rightarrow> execution_state \<Rightarrow> execution_state" where
  "captureVar name val st =
     (let st1 = st\<lparr>variables := (variables st)(name \<mapsto> val)\<rparr>;
          st2 = st1\<lparr>step := step st1 + 1\<rparr>
      in st2\<lparr>executionHistory :=
              executionHistory st2 @ [VariableEntry (step st1) name val (currentLine st2)]\<rparr>)"

definition console_log :: "jsval list \<Rightarrow> execution_state \<Rightarrow> execution_state \<times> jsval option" where
  "console_log args st =
     (let st1 = st\<lparr>step := step st + 1\<rparr>
      in case join_args args of
           Inl e \<Rightarrow> (st1, Some e)
         | Inr out \<Rightarrow>
             (st1\<lparr>executionHistory :=
                    executionHistory st1 @ [ConsoleEntry (step st) out (currentLine st1)]\<rparr>,
              None))"

section \<open>The evaluated program\<close>

text \<open>
  \<^verbatim>\<open>executeInstrumented\<close> hands the instrumented text to \<^verbatim>\<open>new Function\<close> and calls
  the result with the three hooks. What the engine observes of that evaluation is the
  sequence of hook calls the body makes and how it ends. \<open>prog\<close> is that behaviour: the
  body returns a value, lets a value escape as an exception (a syntax error of
  \<^verbatim>\<open>new Function\<close> is such a leaf with no call before it), never returns, or calls a
  hook and goes on. A hook that can throw has two continuations: the first when the hook
  returns, the second, given the thrown value, when it throws; a body with no
  \<^verbatim>\<open>try\<close> around the call has \<open>Throw\<close> there. \<^verbatim>\<open>execute\<close> awaits the result, so
  a body that returns a promise ends the way the promise settles. A behaviour is a finite
  tree: a body that calls hooks without end is not covered.
\<close>

datatype prog =
    Return jsval
  | Throw jsval
  | Diverge
  | Track nat prog "jsval \<Rightarrow> prog"
  | CaptureVar string jsval prog
  | ConsoleLog "jsval list" prog "jsval \<Rightarrow> prog"

datatype completion = Normal jsval | Abrupt jsval | NoReturn

primrec run :: "prog \<Rightarrow> execution_state \<Rightarrow> completion \<times> execution_state" where
  "run (Return v) st = (Normal v, st)"
| "run (Throw e) st = (Abrupt e, st)"
| "run Diverge st = (NoReturn, st)"
| "run (Track lineNum k h) st =
     (case track lineNum st of
        (st', None) \<Rightarrow> run k st'
      | (st', Some e) \<Rightarrow> run (h e) st')"
| "run (CaptureVar name val k) st = run k (captureVar name val st)"
| "run (ConsoleLog args k h) st =
     (case console_log args st of
        (st', None) \<Rightarrow> run k st'
      | (st', Some e) \<Rightarrow> run (h e) st')"

text \<open>
  The evaluator of the host language is a parameter \<open>js\<close>: it maps the text of a
  function body to the behaviour of that body.
\<close>

definition executeInstrumented ::
  "(string \<Rightarrow> prog) \<Rightarrow> string \<Rightarrow> execution_state \<Rightarrow> completion \<times> execution_state" where
  "executeInstrumented js c st = run (js (''\"use strict\"; '' @ c)) st"

text \<open>
  What the caller of \<^verbatim>\<open>execute()\<close> gets: the success object with the result, the error
  object with its \<^verbatim>\<open>error\<close> field (\<open>None\<close> is \<^verbatim>\<open>undefined\<close>), a rejection when the
  \<^verbatim>\<open>catch\<close> block itself raises, or nothing when the body never returns. The
  \<^verbatim>\<open>state\<close> field of both objects is the engine's state, returned beside the outcome;
  the \<^verbatim>\<open>stack\<close> field is left out.
\<close>

datatype outcome = Success jsval | Failure "string option" | Rejected jsval | Pending

definition execute :: "(string \<Rightarrow> prog) \<Rightarrow> engine \<Rightarrow> outcome \<times> engine" where
  "execute js eng =
     (if language eng \<noteq> ''javascript''
      then (Failure (Some ''Only JavaScript execution is supported in browser''), eng)
      else
        (let instrumentedCode = instrumentCode (code eng)
         in case executeInstrumented js instrumentedCode (executionState eng) of
              (Normal result, st) \<Rightarrow> (Success result, eng\<lparr>executionState := st\<rparr>)
            | (NoReturn, st) \<Rightarrow> (Pending, eng\<lparr>executionState := st\<rparr>)
            | (Abrupt error, st) \<Rightarrow>
                (let st1 = st\<lparr>step := step st + 1\<rparr>
                 in case message_of error of
                      Inl e \<Rightarrow> (Rejected e, eng\<lparr>executionState := st1\<rparr>)
                    | Inr msg \<Rightarrow>
                        (Failure msg,
                         eng\<lparr>executionState :=
                           st1\<lparr>executionHistory :=
                                 executionHistory st1 @ [ErrorEntry (step st) msg (currentLine st1)]\<rparr>\<rparr>))))"

text \<open>
  The body lets the breakpoint error escape. \<open>signal_escapes p bps\<close> follows the path
  that a run of \<open>p\<close> takes when the lines \<open>bps\<close> are armed, up to the first visit of
  an armed line, and says that the body, given the error the tracking hook throws
  there, ends at once by throwing that same error. Nothing is asked of the body where
  no armed line is visited, nor of what it does with an error of the console
  substitute. The condition is about what the body does, not about how it is written:
  a \<^verbatim>\<open>try\<close> statement breaks it, and so does any other construct that intercepts the
  error, such as the executor of a promise.
\<close>

primrec signal_escapes :: "prog \<Rightarrow> nat set \<Rightarrow> bool" where
  "signal_escapes (Return v) bps \<longleftrightarrow> True"
| "signal_escapes (Throw e) bps \<longleftrightarrow> True"
| "signal_escapes Diverge bps \<longleftrightarrow> True"
| "signal_escapes (Track lineNum k h) bps \<longleftrightarrow>
     (if lineNum \<in> bps
      then h (JError ''Error'' (''BREAKPOINT at line '' @ show_nat lineNum)) =
             Throw (JError ''Error'' (''BREAKPOINT at line '' @ show_nat lineNum))
      else signal_escapes k bps)"
| "signal_escapes (CaptureVar name val k) bps \<longleftrightarrow> signal_escapes k bps"
| "signal_escapes (ConsoleLog args k h) bps \<longleftrightarrow>
     (case join_args args of
        Inl e \<Rightarrow> signal_escapes (h e) bps
      | Inr out \<Rightarrow> signal_escapes k bps)"

text \<open>
  The step counter agrees with the history: it is the length of the history, and the
  entries carry the steps 0, 1, 2 and so on in order.
\<close>

definition step_consistent :: "execution_state \<Rightarrow> bool" where
  "step_consistent st \<longleftrightarrow>
     step st = length (executionHistory st) \<and>
     map entry_step (executionHistory st) = [0..<length (executionHistory st)]"

text \<open>A body all of whose console calls have arguments that can be joined into a string.\<close>

primrec printable :: "prog \<Rightarrow> bool" where
  "printable (Return v) \<longleftrightarrow> True"
| "printable (Throw e) \<longleftrightarrow> True"
| "printable Diverge \<longleftrightarrow> True"
| "printable (Track lineNum k h) \<longleftrightarrow> printable k \<and> (\<forall>e. printable (h e))"
| "printable (CaptureVar name val k) \<longleftrightarrow> printable k"
| "printable (ConsoleLog args k h) \<longleftrightarrow> (\<exists>out. join_args args = Inr out) \<and> printable k"

text \<open>The entries a call appended: the history after it without the history before it.\<close>

definition new_entries :: "engine \<Rightarrow> engine \<Rightarrow> entry list" where
  "new_entries eng eng' =
     drop (length (executionHistory (executionState eng))) (executionHistory (executionState eng'))"

text \<open>
  The engines a caller can obtain: the constructor's, and any engine after one more
  public operation. Each \<^verbatim>\<open>execute()\<close> may evaluate a body of any behaviour.
\<close>

inductive reachable :: "engine \<Rightarrow> bool" where
  reachable_new: "reachable new_engine"
| reachable_setCode: "reachable eng \<Longrightarrow> reachable (setCode c l eng)"
| reachable_reset: "reachable eng \<Longrightarrow> reachable (reset eng)"
| reachable_addBreakpoint: "reachable eng \<Longrightarrow> reachable (addBreakpoint n eng)"
| reachable_removeBreakpoint: "reachable eng \<Longrightarrow> reachable (removeBreakpoint n eng)"
| reachable_stepNext: "reachable eng \<Longrightarrow> reachable (stepNext eng)"
| reachable_execute: "reachable eng \<Longrightarrow> reachable (snd (execute js eng))"

text \<open>
  Every \<^verbatim>\<open>line\<close> field in the history is 0 or the line of some \<^verbatim>\<open>'line'\<close>
  entry of the same history, and so is \<open>currentLine\<close>.
\<close>

definition lines_recorded :: "execution_state \<Rightarrow> bool" where
  "lines_recorded st \<longleftrightarrow>
     (currentLine st = 0 \<or>
      (\<exists>h \<in> set (executionHistory st). is_line h \<and> entry_line h = currentLine st)) \<and>
     (\<forall>h \<in> set (executionHistory st). entry_line h = 0 \<or>
        (\<exists>h' \<in> set (executionHistory st). is_line h' \<and> entry_line h' = entry_line h))"

text \<open>
  The engines on whose current execution state no run has taken place: a new, reset or
  newly loaded engine, and what the breakpoint operations and \<open>stepNext\<close> make of one.
\<close>

inductive no_run_yet :: "engine \<Rightarrow> bool" where
  no_run_new: "no_run_yet new_engine"
| no_run_setCode: "no_run_yet (setCode c l eng)"
| no_run_reset: "no_run_yet (reset eng)"
| no_run_addBreakpoint: "no_run_yet eng \<Longrightarrow> no_run_yet (addBreakpoint n eng)"
| no_run_removeBreakpoint: "no_run_yet eng \<Longrightarrow> no_run_yet (removeBreakpoint n eng)"
| no_run_stepNext: "no_run_yet eng \<Longrightarrow> no_run_yet (stepNext eng)"

section \<open>The flow graph\<close>

datatype node_kind =
  FunctionNode | ConditionalNode | LoopNode | ReturnNode | AssignmentNode | StatementNode

definition getNodeType :: "string \<Rightarrow> node_kind" where
  "getNodeType c =
     (if starts_with ''function'' c \<or> includes_str ''=>'' c then FunctionNode
      else if starts_with ''if'' c \<or> starts_with ''else'' c then ConditionalNode
      else if starts_with ''for'' c \<or> starts_with ''while'' c then LoopNode
      else if starts_with ''return'' c then ReturnNode
      else if includes_str ''='' c \<and> \<not> includes_str ''=='' c then AssignmentNode
      else StatementNode)"

record flow_node =
  node_id :: nat
  node_line :: nat
  node_code :: string
  node_type :: node_kind
  executed :: bool

record flow_edge =
  edge_from :: nat
  edge_to :: nat

record flow =
  nodes :: "flow_node list"
  edges :: "flow_edge list"

text \<open>
  The callback of \<^verbatim>\<open>codeLines.forEach\<close> in \<^verbatim>\<open>getExecutionFlow\<close>. The test
  \<^verbatim>\<open>h.line === lineNum\<close> reads the \<^verbatim>\<open>line\<close> field of every entry, whatever its type.
\<close>

definition flow_step :: "engine \<Rightarrow> nat \<times> string \<Rightarrow> flow \<Rightarrow> flow" where
  "flow_step eng = (\<lambda>(idx, line) fl.
     (let lineNum = idx + 1;
          trimmed = trim line
      in if trimmed = [] then fl
         else
           (let node = \<lparr>node_id = lineNum, node_line = lineNum, node_code = trimmed,
                        node_type = getNodeType trimmed,
                        executed = list_ex (\<lambda>h. entry_line h = lineNum)
                                     (executionHistory (executionState eng))\<rparr>;
                fl1 = fl\<lparr>nodes := nodes fl @ [node]\<rparr>
            in if idx > 0 \<and> \<not> starts_with ''}'' trimmed \<and> \<not> starts_with ''else'' trimmed
               then fl1\<lparr>edges := edges fl1 @ [\<lparr>edge_from = idx, edge_to = lineNum\<rparr>]\<rparr>
               else fl1)))"

definition getExecutionFlow :: "engine \<Rightarrow> flow" where
  "getExecutionFlow eng =
     fold (flow_step eng) (enumerate 0 (split_lines (code eng))) \<lparr>nodes = [], edges = []\<rparr>"

section \<open>The performance analysis\<close>

text \<open>
  \<^verbatim>\<open>lineExecutionCounts\<close> is an object keyed by line numbers.
  \<^verbatim>\<open>Object.entries\<close> lists integer keys in ascending order, so the object is an
  association list kept in ascending order of its keys; \<open>bump\<close> is
  \<^verbatim>\<open>counts[line] = (counts[line] || 0) + 1\<close>. The keys stay numbers here: the source
  turns each into its decimal string and \<^verbatim>\<open>parseInt\<close> reads it back.
\<close>

fun bump :: "nat \<Rightarrow> (nat \<times> nat) list \<Rightarrow> (nat \<times> nat) list" where
  "bump l [] = [(l, 1)]"
| "bump l ((k, c) # kcs) =
     (if l = k then (k, c + 1) # kcs
      else if l < k then (l, 1) # (k, c) # kcs
      else (k, c) # bump l kcs)"

definition count_step :: "entry \<Rightarrow> (nat \<times> nat) list \<Rightarrow> (nat \<times> nat) list" where
  "count_step entry counts = (if is_line entry then bump (entry_line entry) counts else counts)"

text \<open>\<^verbatim>\<open>lines[line - 1]\<close>, which is \<^verbatim>\<open>undefined\<close> (\<open>None\<close>) outside the array.\<close>

definition line_at :: "string list \<Rightarrow> nat \<Rightarrow> string option" where
  "line_at lines l = (if 1 \<le> l \<and> l \<le> length lines then Some (lines ! (l - 1)) else None)"

record hotspot =
  hotspot_line :: nat
  executionCount :: nat
  hotspot_code :: "string option"

record performance =
  totalSteps :: nat
  hotspots :: "hotspot list"
  avgStepsPerLine :: real

text \<open>
  \<^verbatim>\<open>sort((a, b) => b[1] - a[1])\<close> is a stable sort by descending count, which is
  \<open>sort_key\<close> on the negated count. The quotient of \<^verbatim>\<open>avgStepsPerLine\<close> is taken
  exactly.
\<close>

definition visit_counts :: "engine \<Rightarrow> (nat \<times> nat) list" where
  "visit_counts eng = fold count_step (executionHistory (executionState eng)) []"

definition analyzePerformance :: "engine \<Rightarrow> performance" where
  "analyzePerformance eng =
     (let lineExecutionCounts = visit_counts eng;
          hs = map (\<lambda>(line, count).
                      \<lparr>hotspot_line = line, executionCount = count,
                       hotspot_code = line_at (split_lines (code eng)) line\<rparr>)
                 (sort_key (\<lambda>(line, count). - int count)
                    (filter (\<lambda>(line, count). count > 10) lineExecutionCounts))
      in \<lparr>totalSteps = step (executionState eng), hotspots = hs,
          avgStepsPerLine =
            real (step (executionState eng)) / real (length (split_lines (code eng)))\<rparr>)"

text \<open>The number of \<^verbatim>\<open>'line'\<close> entries of a history that carry a given line.\<close>

definition visits :: "nat \<Rightarrow> entry list \<Rightarrow> nat" where
  "visits l hist = length (filter (\<lambda>e. is_line e \<and> entry_line e = l) hist)"

section \<open>Concrete inputs\<close>

text \<open>Four lines: a statement, an empty line, a comment and an indented statement.\<close>

definition example_source :: string where
  "example_source = join_lines [''let x = 1;'', '''', '' // note'', ''  f(x);'']"

text \<open>An engine holding a source of another language.\<close>

definition python_engine :: engine where
  "python_engine = setCode ''print(1)'' ''python'' new_engine"

text \<open>Two statements with an empty line between them, loaded into a fresh engine.\<close>

definition gap_source :: string where
  "gap_source = join_lines [''a();'', '''', ''b();'']"

definition gap_engine :: engine where
  "gap_engine = setCode gap_source ''javascript'' new_engine"

text \<open>
  The scenario of three statements,
  \<^verbatim>\<open>let x = 1;\<close>, \<^verbatim>\<open>let y = 2;\<close>, \<^verbatim>\<open>console.log(x + y);\<close>,
  the function body the engine builds from it, and what that body does when evaluated:
  it visits the lines 1, 2 and 3, prints the number 3 and ends; no call is inside a
  \<^verbatim>\<open>try\<close>.
\<close>

definition scenario_source :: string where
  "scenario_source = join_lines [''let x = 1;'', ''let y = 2;'', ''console.log(x + y);'']"

definition scenario_body :: string where
  "scenario_body = ''\"use strict\"; '' @
     join_lines [''__track(1); let x = 1;'', ''__track(2); let y = 2;'',
                 ''__track(3); console.log(x + y);'']"

definition scenario_prog :: prog where
  "scenario_prog =
     Track 1 (Track 2 (Track 3 (ConsoleLog [JNum 3] (Return JUndefined) Throw) Throw) Throw) Throw"

text \<open>
  A source whose statement sits in a \<^verbatim>\<open>try\<close> block with an empty handler. All of
  line 2 and the tracking call of line 3 are inside the block, so what either throws is
  caught, and the body then ends normally.
\<close>

definition catching_source :: string where
  "catching_source = join_lines [''try {'', ''let a = 1;'', ''} catch (e) {}'']"

definition catching_body :: string where
  "catching_body = ''\"use strict\"; '' @
     join_lines [''__track(1); try {'', ''__track(2); let a = 1;'',
                 ''__track(3); } catch (e) {}'']"

definition catching_prog :: prog where
  "catching_prog =
     Track 1
       (Track 2 (Track 3 (Return JUndefined) (\<lambda>e. Return JUndefined))
          (\<lambda>e. Return JUndefined))
       Throw"

text \<open>A source that prints a symbol. The console substitute cannot join it into a string.\<close>

definition symbol_source :: string where
  "symbol_source = ''console.log(Symbol());''"

definition symbol_body :: string where
  "symbol_body = ''\"use strict\"; __track(1); console.log(Symbol());''"

definition symbol_prog :: prog where
  "symbol_prog = Track 1 (ConsoleLog [JSymbol []] (Return JUndefined) Throw) Throw"

text \<open>
  An evaluator that knows the three bodies above and rejects every other text as a
  syntax error.
\<close>

definition js_example :: "string \<Rightarrow> prog" where
  "js_example body =
     (if body = scenario_body then scenario_prog
      else if body = catching_body then catching_prog
      else if body = symbol_body then symbol_prog
      else Throw (JError ''SyntaxError'' ''Unexpected token''))"

text \<open>
  Engines: the scenario with line 2 armed; the scenario with only line 7 armed, a line
  it does not have; the catching source with the lines 2 and 7 armed; the engine left by
  a run of the first that paused at line 2, with that breakpoint removed and line 7
  armed, and no reset; the symbol source.
\<close>

definition scenario_engine :: engine where
  "scenario_engine = addBreakpoint 2 (setCode scenario_source ''javascript'' new_engine)"

definition unreached_engine :: engine where
  "unreached_engine = addBreakpoint 7 (setCode scenario_source ''javascript'' new_engine)"

definition catching_engine :: engine where
  "catching_engine =
     addBreakpoint 7 (addBreakpoint 2 (setCode catching_source ''javascript'' new_engine))"

definition rerun_engine :: engine where
  "rerun_engine =
     addBreakpoint 7 (removeBreakpoint 2 (snd (execute js_example scenario_engine)))"

definition symbol_engine :: engine where
  "symbol_engine = setCode symbol_source ''javascript'' new_engine"

text \<open>An engine whose history records eleven visits of line 5 and then ten of line 7.\<close>

definition hot_engine :: engine where
  "hot_engine =
     \<lparr>code = ''work();'', language = ''javascript'',
      executionState =
        \<lparr>currentLine = 7, variables = Map.empty, callStack = [],
         executionHistory =
           [LineEntry 0 5 Map.empty, LineEntry 1 5 Map.empty, LineEntry 2 5 Map.empty,
            LineEntry 3 5 Map.empty, LineEntry 4 5 Map.empty, LineEntry 5 5 Map.empty,
            LineEntry 6 5 Map.empty, LineEntry 7 5 Map.empty, LineEntry 8 5 Map.empty,
            LineEntry 9 5 Map.empty, LineEntry 10 5 Map.empty,
            LineEntry 11 7 Map.empty, LineEntry 12 7 Map.empty, LineEntry 13 7 Map.empty,
            LineEntry 14 7 Map.empty, LineEntry 15 7 Map.empty, LineEntry 16 7 Map.empty,
            LineEntry 17 7 Map.empty, LineEntry 18 7 Map.empty, LineEntry 19 7 Map.empty,
            LineEntry 20 7 Map.empty],
         breakpoints = {}, isPaused = False, step = 21\<rparr>\<rparr>"

section \<open>Properties of the text helpers\<close>

lemma split_from_nonempty: "split_from cur s \<noteq> []"
  by (induction s arbitrary: cur) auto

lemma split_lines_nonempty: "split_lines s \<noteq> []"
  by (simp add: split_lines_def split_from_nonempty)

lemma length_split_lines_pos: "0 < length (split_lines s)"
  using split_lines_nonempty [of s] by simp

lemma split_from_no_newline:
  "l \<in> set (split_from cur s) \<Longrightarrow> newline \<notin> set cur \<Longrightarrow> newline \<notin> set l"
proof (induction s arbitrary: cur)
  case Nil
  then show ?case by simp
next
  case (Cons c cs)
  show ?case
  proof (cases "c = newline")
    case True
    with Cons.prems have "l = cur \<or> l \<in> set (split_from [] cs)"
      by auto
    then show ?thesis
      using Cons.prems(2) Cons.IH [of "[]"] by auto
  next
    case False
    with Cons.prems have "l \<in> set (split_from (cur @ [c]) cs)"
      by simp
    then show ?thesis
      using Cons.IH [of "cur @ [c]"] Cons.prems(2) False by auto
  qed
qed

lemma split_lines_no_newline: "l \<in> set (split_lines s) \<Longrightarrow> newline \<notin> set l"
  using split_from_no_newline [of l "[]" s] by (simp add: split_lines_def)

lemma split_from_append_newline:
  "newline \<notin> set l \<Longrightarrow> split_from cur (l @ newline # s) = (cur @ l) # split_from [] s"
  by (induction l arbitrary: cur) auto

lemma split_lines_append_newline:
  "newline \<notin> set l \<Longrightarrow> split_lines (l @ newline # s) = l # split_lines s"
  using split_from_append_newline [of l "[]" s] by (simp add: split_lines_def)

lemma split_from_single: "newline \<notin> set l \<Longrightarrow> split_from cur l = [cur @ l]"
  by (induction l arbitrary: cur) auto

lemma split_lines_single: "newline \<notin> set l \<Longrightarrow> split_lines l = [l]"
  using split_from_single [of l "[]"] by (simp add: split_lines_def)

lemma split_join_lines:
  "ls \<noteq> [] \<Longrightarrow> (\<And>l. l \<in> set ls \<Longrightarrow> newline \<notin> set l) \<Longrightarrow> split_lines (join_lines ls) = ls"
proof (induction ls rule: join_lines.induct)
  case 1
  then show ?case by simp
next
  case (2 l)
  then show ?case by (simp add: split_lines_single)
next
  case (3 l m ls)
  then show ?case by (simp add: split_lines_append_newline)
qed

lemma digit_char_not_newline: "d < 10 \<Longrightarrow> digit_char d \<noteq> newline"
proof -
  assume "d < 10"
  then have "digit_char d \<in> set ''0123456789''"
    unfolding digit_char_def by (intro nth_mem) simp
  then show ?thesis
    by (auto simp: newline_def)
qed

lemma show_nat_no_newline: "newline \<notin> set (show_nat n)"
proof (induction n rule: show_nat.induct)
  case (1 n)
  show ?case
  proof (cases "n < 10")
    case True
    then show ?thesis
      using digit_char_not_newline [of n] by (subst show_nat.simps) auto
  next
    case False
    then show ?thesis
      using "1" digit_char_not_newline [of "n mod 10"] by (subst show_nat.simps) auto
  qed
qed

lemma instrument_line_no_newline:
  "newline \<notin> set line \<Longrightarrow> newline \<notin> set (instrument_line idx line)"
  using show_nat_no_newline [of "idx + 1"] by (auto simp: instrument_line_def newline_def)

lemma split_instrumentCode:
  "split_lines (instrumentCode src) =
     map (\<lambda>(idx, line). instrument_line idx line) (enumerate 0 (split_lines src))"
  unfolding instrumentCode_def Let_def
proof (rule split_join_lines)
  show "map (\<lambda>(idx, line). instrument_line idx line) (enumerate 0 (split_lines src)) \<noteq> []"
    using split_lines_nonempty [of src] by (cases "split_lines src") auto
next
  fix l
  assume "l \<in> set (map (\<lambda>(idx, line). instrument_line idx line) (enumerate 0 (split_lines src)))"
  then obtain idx line where "l = instrument_line idx line" "line \<in> set (split_lines src)"
    by (auto simp: in_set_enumerate_eq)
  then show "newline \<notin> set l"
    by (simp add: instrument_line_no_newline split_lines_no_newline)
qed

section \<open>C3: the instrumenter's contract\<close>

lemma split_example_source:
  "split_lines example_source = [''let x = 1;'', '''', '' // note'', ''  f(x);'']"
  by (simp add: example_source_def newline_def split_lines_def)

text \<open>
  C3. For every source text, \<open>instrumentCode\<close> returns a text with the same number of
  lines. A line that is not empty after trimming and whose trimmed text does not start
  with \<^verbatim>\<open>//\<close> is prefixed with the tracking call carrying its 1-based line number;
  a blank or comment-only line is returned unmodified.
\<close>

theorem instrumentCode_contract:
  "length (split_lines (instrumentCode src)) = length (split_lines src) \<and>
   (\<forall>i < length (split_lines src).
      split_lines (instrumentCode src) ! i =
        (if trim (split_lines src ! i) = [] \<or> starts_with ''//'' (trim (split_lines src ! i))
         then split_lines src ! i
         else ''__track('' @ show_nat (i + 1) @ ''); '' @ split_lines src ! i))"
  by (simp add: split_instrumentCode nth_enumerate_eq instrument_line_def)

theorem instrumentCode_contract_witness:
  "length (split_lines (instrumentCode example_source)) = 4 \<and>
   split_lines (instrumentCode example_source) ! 0 = ''__track(1); let x = 1;'' \<and>
   split_lines (instrumentCode example_source) ! 1 = '''' \<and>
   split_lines (instrumentCode example_source) ! 2 = '' // note'' \<and>
   split_lines (instrumentCode example_source) ! 3 = ''__track(4);   f(x);''"
  using instrumentCode_contract [of example_source]
  by (simp add: split_example_source trim_def is_ws_def starts_with_def show_nat.simps
      digit_char_def)

section \<open>C4: reset and the breakpoints\<close>

text \<open>
  C4 as stated fails: \<open>reset\<close> installs a fresh state object whose \<open>breakpoints\<close> set
  is empty, so an armed line does not survive it.
\<close>

theorem reset_clears_breakpoints_counterexample:
  "breakpoints (executionState (addBreakpoint 3 new_engine)) = {3} \<and>
   breakpoints (executionState (reset (addBreakpoint 3 new_engine))) = {}"
  by (simp add: reset_def addBreakpoint_def new_engine_def initial_state_def)

text \<open>
  C4, amended. \<open>reset\<close> returns the execution state to its initial form: current line
  0, no variables, empty call stack, empty history, step 0, not paused, and an empty
  breakpoints set. The stored code and language are unchanged.
\<close>

theorem reset_initial_form:
  "executionState (reset eng) =
     \<lparr>currentLine = 0, variables = Map.empty, callStack = [], executionHistory = [],
      breakpoints = {}, isPaused = False, step = 0\<rparr> \<and>
   code (reset eng) = code eng \<and> language (reset eng) = language eng"
  by (simp add: reset_def initial_state_def)

section \<open>C8: a language other than the supported one\<close>

text \<open>
  C8. When the stored language tag is not \<^verbatim>\<open>'javascript'\<close>, \<open>execute\<close> returns the
  error result at once: whatever the evaluator \<open>js\<close> would do, nothing is instrumented
  or evaluated and the engine, its execution state included, is unchanged.
\<close>

theorem execute_unsupported_language:
  "language eng \<noteq> ''javascript'' \<Longrightarrow>
   execute js eng = (Failure (Some ''Only JavaScript execution is supported in browser''), eng)"
  by (simp add: execute_def)

theorem execute_unsupported_language_witness:
  "language python_engine \<noteq> ''javascript'' \<and>
   execute (\<lambda>body. Return (JNum 1)) python_engine =
     (Failure (Some ''Only JavaScript execution is supported in browser''), python_engine)"
proof -
  have l: "language python_engine \<noteq> ''javascript''"
    by (simp add: python_engine_def setCode_def reset_def)
  show ?thesis
    using l execute_unsupported_language [OF l, of "\<lambda>body. Return (JNum 1)"] by simp
qed

section \<open>C10: the frame of stepNext\<close>

text \<open>
  C10. \<open>stepNext\<close> sets \<open>isPaused\<close> to false and changes nothing else: the current
  line, the variables, the call stack, the history, the breakpoints, the step counter,
  the stored code and the language are as before. It takes no evaluator, so no line of
  the program is executed.
\<close>

theorem stepNext_frame:
  "isPaused (executionState (stepNext eng)) = False \<and>
   currentLine (executionState (stepNext eng)) = currentLine (executionState eng) \<and>
   variables (executionState (stepNext eng)) = variables (executionState eng) \<and>
   callStack (executionState (stepNext eng)) = callStack (executionState eng) \<and>
   executionHistory (executionState (stepNext eng)) = executionHistory (executionState eng) \<and>
   breakpoints (executionState (stepNext eng)) = breakpoints (executionState eng) \<and>
   step (executionState (stepNext eng)) = step (executionState eng) \<and>
   code (stepNext eng) = code eng \<and> language (stepNext eng) = language eng"
  by (simp add: stepNext_def)

section \<open>C9: the empty source\<close>

lemma getExecutionFlow_empty:
  "code eng = [] \<Longrightarrow> getExecutionFlow eng = \<lparr>nodes = [], edges = []\<rparr>"
  by (simp add: getExecutionFlow_def split_lines_def flow_step_def trim_def)

text \<open>
  C9. With the empty string as stored source and a step counter of 0, the flow graph
  has no node and no edge and \<open>avgStepsPerLine\<close> is 0. The divisor is the number of
  lines of the source, which is 1 for the empty source and is never 0 for any engine.
\<close>

theorem empty_source_safety:
  "code eng = [] \<Longrightarrow> step (executionState eng) = 0 \<Longrightarrow>
   getExecutionFlow eng = \<lparr>nodes = [], edges = []\<rparr> \<and>
   avgStepsPerLine (analyzePerformance eng) = 0 \<and>
   length (split_lines (code eng)) = 1 \<and>
   length (split_lines (code eng')) \<noteq> 0"
  using split_lines_nonempty [of "code eng'"]
  by (simp add: getExecutionFlow_empty analyzePerformance_def Let_def split_lines_def)

theorem empty_source_safety_witness:
  "code new_engine = [] \<and> step (executionState new_engine) = 0 \<and>
   getExecutionFlow new_engine = \<lparr>nodes = [], edges = []\<rparr> \<and>
   avgStepsPerLine (analyzePerformance new_engine) = 0 \<and>
   length (split_lines (code new_engine)) = 1"
  using empty_source_safety [of new_engine new_engine]
  by (simp add: new_engine_def initial_state_def)

section \<open>C5: the edges of the flow graph\<close>

text \<open>
  The loop of \<open>getExecutionFlow\<close> in closed form: the nodes are the non-blank lines in
  order, the edges the non-blank lines after the first that start with neither
  \<^verbatim>\<open>}\<close> nor \<^verbatim>\<open>else\<close>, each with the line number before it as its source.
\<close>

lemma fold_flow_step:
  "fold (flow_step eng) xs fl =
     \<lparr>nodes = nodes fl @
        map (\<lambda>(idx, line).
               \<lparr>node_id = idx + 1, node_line = idx + 1, node_code = trim line,
                node_type = getNodeType (trim line),
                executed = list_ex (\<lambda>h. entry_line h = idx + 1)
                             (executionHistory (executionState eng))\<rparr>)
          (filter (\<lambda>(idx, line). trim line \<noteq> []) xs),
      edges = edges fl @
        map (\<lambda>(idx, line). \<lparr>edge_from = idx, edge_to = idx + 1\<rparr>)
          (filter (\<lambda>(idx, line). trim line \<noteq> [] \<and> idx > 0 \<and> \<not> starts_with ''}'' (trim line) \<and>
                                 \<not> starts_with ''else'' (trim line)) xs)\<rparr>"
proof (induction xs arbitrary: fl)
  case Nil
  then show ?case by simp
next
  case (Cons x xs)
  obtain idx line where x: "x = (idx, line)"
    by (cases x)
  show ?case
    unfolding x fold_simps Cons.IH
    by (simp add: flow_step_def Let_def)
qed

lemma nodes_getExecutionFlow:
  "nodes (getExecutionFlow eng) =
     map (\<lambda>(idx, line).
            \<lparr>node_id = idx + 1, node_line = idx + 1, node_code = trim line,
             node_type = getNodeType (trim line),
             executed = list_ex (\<lambda>h. entry_line h = idx + 1)
                          (executionHistory (executionState eng))\<rparr>)
       (filter (\<lambda>(idx, line). trim line \<noteq> []) (enumerate 0 (split_lines (code eng))))"
  by (simp add: getExecutionFlow_def fold_flow_step)

lemma edges_getExecutionFlow:
  "edges (getExecutionFlow eng) =
     map (\<lambda>(idx, line). \<lparr>edge_from = idx, edge_to = idx + 1\<rparr>)
       (filter (\<lambda>(idx, line). trim line \<noteq> [] \<and> idx > 0 \<and> \<not> starts_with ''}'' (trim line) \<and>
                              \<not> starts_with ''else'' (trim line))
          (enumerate 0 (split_lines (code eng))))"
  by (simp add: getExecutionFlow_def fold_flow_step)

lemma split_gap_source: "split_lines gap_source = [''a();'', '''', ''b();'']"
  by (simp add: gap_source_def newline_def split_lines_def)

text \<open>
  C5 as stated fails. In \<open>gap_source\<close> line 2 is blank, so the nodes are the lines 1
  and 3. The line before line 3 that is not blank is line 1, but the one edge into node 3
  starts at line 2, which has no node.
\<close>

theorem flow_edge_from_blank_line_counterexample:
  "trim (split_lines (code gap_engine) ! 1) = [] \<and>
   map node_line (nodes (getExecutionFlow gap_engine)) = [1, 3] \<and>
   edges (getExecutionFlow gap_engine) = [\<lparr>edge_from = 2, edge_to = 3\<rparr>]"
  by (simp add: nodes_getExecutionFlow edges_getExecutionFlow gap_engine_def setCode_def reset_def
      split_gap_source trim_def is_ws_def starts_with_def)

text \<open>
  C5, amended. For every source text the edges of \<open>getExecutionFlow\<close> are, in the
  order of the nodes, one edge for each node that is not on line 1 and whose trimmed text
  starts with neither \<^verbatim>\<open>}\<close> nor \<^verbatim>\<open>else\<close>; the edge goes from the line number just
  before the node's line, blank or not, to the node's line. The other nodes get no
  incoming edge.
\<close>

theorem flow_edges_from_previous_line:
  "edges (getExecutionFlow eng) =
     map (\<lambda>nd. \<lparr>edge_from = node_line nd - 1, edge_to = node_line nd\<rparr>)
       (filter (\<lambda>nd. 1 < node_line nd \<and> \<not> starts_with ''}'' (node_code nd) \<and>
                      \<not> starts_with ''else'' (node_code nd))
          (nodes (getExecutionFlow eng)))"
  unfolding edges_getExecutionFlow nodes_getExecutionFlow filter_map map_map filter_filter
  by (rule arg_cong2 [where f = map]) (auto simp: fun_eq_iff intro!: filter_cong)

theorem flow_edges_from_previous_line_witness:
  "edges (getExecutionFlow gap_engine) = [\<lparr>edge_from = 2, edge_to = 3\<rparr>]"
  using flow_edges_from_previous_line [of gap_engine]
  by (simp add: nodes_getExecutionFlow gap_engine_def setCode_def reset_def
      split_gap_source trim_def is_ws_def starts_with_def)

section \<open>The example runs\<close>

lemma instrument_scenario:
  "instrumentCode scenario_source =
     join_lines [''__track(1); let x = 1;'', ''__track(2); let y = 2;'',
                 ''__track(3); console.log(x + y);'']"
  by (simp add: scenario_source_def instrumentCode_def split_lines_def
      newline_def instrument_line_def trim_def is_ws_def starts_with_def show_nat.simps
      digit_char_def)

lemma instrument_catching:
  "instrumentCode catching_source =
     join_lines [''__track(1); try {'', ''__track(2); let a = 1;'',
                 ''__track(3); } catch (e) {}'']"
  by (simp add: catching_source_def instrumentCode_def split_lines_def
      newline_def instrument_line_def trim_def is_ws_def starts_with_def show_nat.simps
      digit_char_def)

lemma instrument_symbol:
  "instrumentCode symbol_source = ''__track(1); console.log(Symbol());''"
  by (simp add: symbol_source_def instrumentCode_def split_lines_def
      newline_def instrument_line_def trim_def is_ws_def starts_with_def show_nat.simps
      digit_char_def)

lemma execute_scenario:
  "execute js_example scenario_engine =
     (Failure (Some ''BREAKPOINT at line 2''),
      \<lparr>code = scenario_source, language = ''javascript'',
       executionState =
         \<lparr>currentLine = 2, variables = Map.empty, callStack = [],
          executionHistory =
            [LineEntry 0 1 Map.empty, LineEntry 1 2 Map.empty,
             ErrorEntry 2 (Some ''BREAKPOINT at line 2'') 2],
          breakpoints = {2}, isPaused = True, step = 3\<rparr>\<rparr>)"
  by (simp add: execute_def executeInstrumented_def instrument_scenario scenario_body_def
      js_example_def scenario_engine_def setCode_def reset_def addBreakpoint_def new_engine_def
      initial_state_def scenario_prog_def track_def Let_def show_nat.simps digit_char_def)

lemma execute_unreached:
  "execute js_example unreached_engine =
     (Success JUndefined,
      \<lparr>code = scenario_source, language = ''javascript'',
       executionState =
         \<lparr>currentLine = 3, variables = Map.empty, callStack = [],
          executionHistory =
            [LineEntry 0 1 Map.empty, LineEntry 1 2 Map.empty, LineEntry 2 3 Map.empty,
             ConsoleEntry 3 ''3'' 3],
          breakpoints = {7}, isPaused = False, step = 4\<rparr>\<rparr>)"
  by (simp add: execute_def executeInstrumented_def instrument_scenario scenario_body_def
      js_example_def unreached_engine_def setCode_def reset_def addBreakpoint_def new_engine_def
      initial_state_def scenario_prog_def track_def console_log_def join_element_def
      show_int_def Let_def show_nat.simps digit_char_def)

lemma execute_catching:
  "execute js_example catching_engine =
     (Success JUndefined,
      \<lparr>code = catching_source, language = ''javascript'',
       executionState =
         \<lparr>currentLine = 2, variables = Map.empty, callStack = [],
          executionHistory = [LineEntry 0 1 Map.empty, LineEntry 1 2 Map.empty],
          breakpoints = {7, 2}, isPaused = True, step = 2\<rparr>\<rparr>)"
  by (simp add: execute_def executeInstrumented_def instrument_catching catching_body_def
      scenario_body_def js_example_def catching_engine_def setCode_def reset_def
      addBreakpoint_def new_engine_def initial_state_def catching_prog_def track_def Let_def
      show_nat.simps digit_char_def)

lemma rerun_engine_eq:
  "rerun_engine =
      \<lparr>code = scenario_source, language = ''javascript'',
       executionState =
         \<lparr>currentLine = 2, variables = Map.empty, callStack = [],
          executionHistory =
            [LineEntry 0 1 Map.empty, LineEntry 1 2 Map.empty,
             ErrorEntry 2 (Some ''BREAKPOINT at line 2'') 2],
          breakpoints = {7}, isPaused = True, step = 3\<rparr>\<rparr>"
  by (simp add: rerun_engine_def execute_scenario removeBreakpoint_def addBreakpoint_def)

lemma execute_rerun:
  "execute js_example rerun_engine =
     (Success JUndefined,
      \<lparr>code = scenario_source, language = ''javascript'',
       executionState =
         \<lparr>currentLine = 3, variables = Map.empty, callStack = [],
          executionHistory =
            [LineEntry 0 1 Map.empty, LineEntry 1 2 Map.empty,
             ErrorEntry 2 (Some ''BREAKPOINT at line 2'') 2,
             LineEntry 3 1 Map.empty, LineEntry 4 2 Map.empty, LineEntry 5 3 Map.empty,
             ConsoleEntry 6 ''3'' 3],
          breakpoints = {7}, isPaused = True, step = 7\<rparr>\<rparr>)"
  unfolding rerun_engine_eq
  by (simp add: execute_def executeInstrumented_def instrument_scenario scenario_body_def
      js_example_def scenario_prog_def track_def console_log_def join_element_def show_int_def
      Let_def show_nat.simps digit_char_def)

lemma execute_symbol:
  "execute js_example symbol_engine =
     (Failure (Some ''Cannot convert a Symbol value to a string''),
      \<lparr>code = symbol_source, language = ''javascript'',
       executionState =
         \<lparr>currentLine = 1, variables = Map.empty, callStack = [],
          executionHistory =
            [LineEntry 0 1 Map.empty,
             ErrorEntry 2 (Some ''Cannot convert a Symbol value to a string'') 1],
          breakpoints = {}, isPaused = False, step = 3\<rparr>\<rparr>)"
  by (simp add: execute_def executeInstrumented_def instrument_symbol symbol_body_def
      scenario_body_def catching_body_def js_example_def symbol_engine_def setCode_def
      reset_def new_engine_def initial_state_def symbol_prog_def track_def console_log_def
      join_element_def Let_def)

section \<open>What a run changes\<close>

lemma track_armed:
  "n \<in> breakpoints st \<Longrightarrow>
   track n st =
     (st\<lparr>currentLine := n, step := step st + 1,
         executionHistory := executionHistory st @ [LineEntry (step st) n (variables st)],
         isPaused := True\<rparr>,
      Some (JError ''Error'' (''BREAKPOINT at line '' @ show_nat n)))"
  by (simp add: track_def Let_def)

lemma track_free:
  "n \<notin> breakpoints st \<Longrightarrow>
   track n st =
     (st\<lparr>currentLine := n, step := step st + 1,
         executionHistory := executionHistory st @ [LineEntry (step st) n (variables st)]\<rparr>,
      None)"
  by (simp add: track_def Let_def)

lemma console_log_cases:
  "console_log args st = (st', r) \<Longrightarrow>
   breakpoints st' = breakpoints st \<and> isPaused st' = isPaused st \<and>
   (executionHistory st' = executionHistory st \<or>
    (\<exists>out. executionHistory st' =
       executionHistory st @ [ConsoleEntry (step st) out (currentLine st)]))"
  by (auto simp: console_log_def Let_def split: sum.splits)

text \<open>
  Whatever the body does, a run keeps the breakpoints, only appends to the history, and
  can end paused only if it began paused or visited an armed line.
\<close>

lemma run_effect:
  "run p st = (c, st') \<Longrightarrow>
   breakpoints st' = breakpoints st \<and>
   (\<exists>new. executionHistory st' = executionHistory st @ new \<and>
      (isPaused st' \<longrightarrow>
         isPaused st \<or> (\<exists>e \<in> set new. is_line e \<and> entry_line e \<in> breakpoints st)))"
proof (induction p arbitrary: st c st')
  case (Track n k h)
  show ?case
  proof (cases "n \<in> breakpoints st")
    case True
    let ?st1 = "fst (track n st)"
    let ?e = "JError ''Error'' (''BREAKPOINT at line '' @ show_nat n)"
    have r: "run (h ?e) ?st1 = (c, st')"
      using Track.prems True by (simp add: track_armed)
    have "h ?e \<in> range h" by simp
    from Track.IH(2) [OF this r] True show ?thesis
      by (auto simp: track_armed)
  next
    case False
    let ?st1 = "fst (track n st)"
    have r: "run k ?st1 = (c, st')"
      using Track.prems False by (simp add: track_free)
    from Track.IH(1) [OF r] False show ?thesis
      by (auto simp: track_free)
  qed
next
  case (CaptureVar x v k)
  then have r: "run k (captureVar x v st) = (c, st')"
    by simp
  from CaptureVar.IH [OF r] show ?case
    by (auto simp: captureVar_def Let_def)
next
  case (ConsoleLog args k h)
  obtain st1 res where cl: "console_log args st = (st1, res)"
    by (cases "console_log args st")
  have "\<exists>q. run q st1 = (c, st') \<and> (q = k \<or> q \<in> range h)"
    using ConsoleLog.prems cl by (cases res) auto
  then obtain q where r: "run q st1 = (c, st')" and q: "q = k \<or> q \<in> range h"
    by blast
  have "breakpoints st' = breakpoints st1 \<and>
   (\<exists>new. executionHistory st' = executionHistory st1 @ new \<and>
      (isPaused st' \<longrightarrow>
         isPaused st1 \<or> (\<exists>e \<in> set new. is_line e \<and> entry_line e \<in> breakpoints st1)))"
    using q ConsoleLog.IH r by blast
  with console_log_cases [OF cl] show ?case
    by auto
qed auto

text \<open>A run never clears the pause flag, and a visit of an armed line sets it.\<close>

lemma run_keeps_paused: "run p st = (c, st') \<Longrightarrow> isPaused st \<Longrightarrow> isPaused st'"
proof (induction p arbitrary: st)
  case (Track n k h)
  obtain st1 res where t: "track n st = (st1, res)"
    by (cases "track n st")
  with Track.prems(2) have p1: "isPaused st1"
    by (auto simp: track_def Let_def split: if_splits)
  have "\<exists>q. run q st1 = (c, st') \<and> (q = k \<or> q \<in> range h)"
    using Track.prems(1) t by (cases res) auto
  with Track.IH p1 show ?case
    by blast
next
  case (CaptureVar x v k)
  then show ?case
    by (simp add: captureVar_def Let_def)
next
  case (ConsoleLog args k h)
  obtain st1 res where cl: "console_log args st = (st1, res)"
    by (cases "console_log args st")
  with ConsoleLog.prems(2) console_log_cases [OF cl] have p1: "isPaused st1"
    by simp
  have "\<exists>q. run q st1 = (c, st') \<and> (q = k \<or> q \<in> range h)"
    using ConsoleLog.prems(1) cl by (cases res) auto
  with ConsoleLog.IH p1 show ?case
    by blast
qed auto

lemma run_visit_pauses:
  "run p st = (c, st') \<Longrightarrow> executionHistory st' = executionHistory st @ new \<Longrightarrow>
   e \<in> set new \<Longrightarrow> is_line e \<Longrightarrow> entry_line e \<in> breakpoints st \<Longrightarrow> isPaused st'"
proof (induction p arbitrary: st new)
  case (Track n k h)
  show ?case
  proof (cases "n \<in> breakpoints st")
    case True
    let ?st1 = "fst (track n st)"
    let ?e = "JError ''Error'' (''BREAKPOINT at line '' @ show_nat n)"
    have r: "run (h ?e) ?st1 = (c, st')"
      using Track.prems(1) True by (simp add: track_armed)
    have "isPaused ?st1"
      using True by (simp add: track_armed)
    with r show ?thesis
      by (rule run_keeps_paused)
  next
    case False
    let ?st1 = "fst (track n st)"
    have r: "run k ?st1 = (c, st')"
      using Track.prems(1) False by (simp add: track_free)
    obtain new' where new': "executionHistory st' = executionHistory ?st1 @ new'"
      using run_effect [OF r] by blast
    then have new: "new = LineEntry (step st) n (variables st) # new'"
      using Track.prems(2) False by (simp add: track_free)
    with Track.prems(3,4,5) False have e: "e \<in> set new'"
      by auto
    have b: "entry_line e \<in> breakpoints ?st1"
      using Track.prems(5) False by (simp add: track_free)
    from Track.IH(1) [OF r new' e Track.prems(4) b] show ?thesis .
  qed
next
  case (CaptureVar x v k)
  let ?st1 = "captureVar x v st"
  have r: "run k ?st1 = (c, st')"
    using CaptureVar.prems(1) by simp
  obtain new' where new': "executionHistory st' = executionHistory ?st1 @ new'"
    using run_effect [OF r] by blast
  then have new: "new = VariableEntry (step st) x v (currentLine st) # new'"
    using CaptureVar.prems(2) by (simp add: captureVar_def Let_def)
  with CaptureVar.prems(3,4) have e: "e \<in> set new'"
    by auto
  have b: "entry_line e \<in> breakpoints ?st1"
    using CaptureVar.prems(5) by (simp add: captureVar_def Let_def)
  from CaptureVar.IH [OF r new' e CaptureVar.prems(4) b] show ?case .
next
  case (ConsoleLog args k h)
  obtain st1 res where cl: "console_log args st = (st1, res)"
    by (cases "console_log args st")
  have "\<exists>q. run q st1 = (c, st') \<and> (q = k \<or> q \<in> range h)"
    using ConsoleLog.prems(1) cl by (cases res) auto
  then obtain q where r: "run q st1 = (c, st')" and q: "q = k \<or> q \<in> range h"
    by blast
  obtain new' where new': "executionHistory st' = executionHistory st1 @ new'"
    using run_effect [OF r] by blast
  have b: "entry_line e \<in> breakpoints st1"
    using ConsoleLog.prems(5) console_log_cases [OF cl] by simp
  have e: "e \<in> set new'"
    using console_log_cases [OF cl] new' ConsoleLog.prems(2,3,4) by auto
  from q ConsoleLog.IH r new' e ConsoleLog.prems(4) b show ?case
    by blast
qed auto

text \<open>
  When the body lets the breakpoint error escape, the run ends at the first visit of an
  armed line: the completion is the hook's error for that line, the state is paused and
  the visit is the last entry.
\<close>

lemma run_signal_escapes:
  "signal_escapes p (breakpoints st) \<Longrightarrow> run p st = (c, st') \<Longrightarrow> L \<in> breakpoints st \<Longrightarrow>
   executionHistory st' = executionHistory st @ new \<Longrightarrow>
   e \<in> set new \<Longrightarrow> is_line e \<Longrightarrow> entry_line e = L \<Longrightarrow>
   c = Abrupt (JError ''Error'' (''BREAKPOINT at line '' @ show_nat L)) \<and> isPaused st' \<and>
   is_line (last new) \<and> entry_line (last new) = L"
proof (induction p arbitrary: st new)
  case (Track n k h)
  show ?case
  proof (cases "n \<in> breakpoints st")
    case True
    with Track.prems(1)
    have h: "h (JError ''Error'' (''BREAKPOINT at line '' @ show_nat n)) =
        Throw (JError ''Error'' (''BREAKPOINT at line '' @ show_nat n))"
      by simp
    with True Track.prems show ?thesis
      by (auto simp: track_armed)
  next
    case False
    let ?st1 = "fst (track n st)"
    have bp: "breakpoints ?st1 = breakpoints st"
      using False by (simp add: track_free)
    have k: "signal_escapes k (breakpoints ?st1)"
      using Track.prems(1) False bp by simp
    have r: "run k ?st1 = (c, st')"
      using Track.prems(2) False by (simp add: track_free)
    obtain new' where new': "executionHistory st' = executionHistory ?st1 @ new'"
      using run_effect [OF r] by blast
    then have new: "new = LineEntry (step st) n (variables st) # new'"
      using Track.prems(4) False by (simp add: track_free)
    have Ln: "L \<noteq> n"
      using False Track.prems(3) by auto
    with new Track.prems(5,6,7) have e: "e \<in> set new'"
      by auto
    have L: "L \<in> breakpoints ?st1"
      using Track.prems(3) bp by simp
    from Track.IH(1) [OF k r L new' e Track.prems(6,7)] e new show ?thesis
      by auto
  qed
next
  case (CaptureVar x v k)
  let ?st1 = "captureVar x v st"
  have bp: "breakpoints ?st1 = breakpoints st"
    by (simp add: captureVar_def Let_def)
  have k: "signal_escapes k (breakpoints ?st1)"
    using CaptureVar.prems(1) bp by simp
  have r: "run k ?st1 = (c, st')"
    using CaptureVar.prems(2) by simp
  obtain new' where new': "executionHistory st' = executionHistory ?st1 @ new'"
    using run_effect [OF r] by blast
  then have new: "new = VariableEntry (step st) x v (currentLine st) # new'"
    using CaptureVar.prems(4) by (simp add: captureVar_def Let_def)
  with CaptureVar.prems(5,6) have e: "e \<in> set new'"
    by auto
  have L: "L \<in> breakpoints ?st1"
    using CaptureVar.prems(3) bp by simp
  from CaptureVar.IH [OF k r L new' e CaptureVar.prems(6,7)] e new show ?case
    by auto
next
  case (ConsoleLog args k h)
  show ?case
  proof (cases "join_args args")
    case (Inl err)
    let ?st1 = "st\<lparr>step := step st + 1\<rparr>"
    have cl: "console_log args st = (?st1, Some err)"
      using Inl by (simp add: console_log_def Let_def)
    have q: "signal_escapes (h err) (breakpoints ?st1)"
      using ConsoleLog.prems(1) Inl by simp
    have r: "run (h err) ?st1 = (c, st')"
      using ConsoleLog.prems(2) cl by simp
    have new': "executionHistory st' = executionHistory ?st1 @ new"
      using ConsoleLog.prems(4) by simp
    have L: "L \<in> breakpoints ?st1"
      using ConsoleLog.prems(3) by simp
    have "h err \<in> range h"
      by simp
    from ConsoleLog.IH(2) [OF this q r L new' ConsoleLog.prems(5,6,7)] show ?thesis .
  next
    case (Inr out)
    let ?st1 = "fst (console_log args st)"
    have cl: "console_log args st =
        (st\<lparr>step := step st + 1,
            executionHistory := executionHistory st @ [ConsoleEntry (step st) out (currentLine st)]\<rparr>,
         None)"
      using Inr by (simp add: console_log_def Let_def)
    have k: "signal_escapes k (breakpoints ?st1)"
      using ConsoleLog.prems(1) Inr cl by simp
    have r: "run k ?st1 = (c, st')"
      using ConsoleLog.prems(2) cl by simp
    obtain new' where new': "executionHistory st' = executionHistory ?st1 @ new'"
      using run_effect [OF r] by blast
    then have new: "new = ConsoleEntry (step st) out (currentLine st) # new'"
      using ConsoleLog.prems(4) cl by simp
    with ConsoleLog.prems(5,6) have e: "e \<in> set new'"
      by auto
    have L: "L \<in> breakpoints ?st1"
      using ConsoleLog.prems(3) cl by simp
    from ConsoleLog.IH(1) [OF k r L new' e ConsoleLog.prems(6,7)] e new show ?thesis
      by auto
  qed
qed auto

section \<open>C1: the breakpoint law\<close>

text \<open>
  C1 as stated fails. In \<open>catching_engine\<close> the lines 2 and 7 are armed and the state
  is not paused. The run visits the lines 1 and 2; the hook throws at line 2, the body's
  own handler catches it, and \<open>execute\<close> returns success, paused. So the armed and
  visited line 2 gives no error result, and the armed line 7, never visited in a run that
  raised no error, comes with \<open>isPaused\<close> true. In \<open>rerun_engine\<close> the state is still
  paused from the run before; the run visits no armed line and succeeds, and \<open>isPaused\<close>
  is still true. In \<open>python_engine\<close> no line is visited and no program raises anything,
  yet the result is an error, not success.
\<close>

theorem breakpoint_law_counterexample:
  "2 \<in> breakpoints (executionState catching_engine) \<and>
   7 \<in> breakpoints (executionState catching_engine) \<and>
   \<not> isPaused (executionState catching_engine) \<and>
   fst (execute js_example catching_engine) = Success JUndefined \<and>
   map entry_line
     (filter is_line (new_entries catching_engine (snd (execute js_example catching_engine))))
     = [1, 2] \<and>
   isPaused (executionState (snd (execute js_example catching_engine))) \<and>
   7 \<in> breakpoints (executionState rerun_engine) \<and>
   fst (execute js_example rerun_engine) = Success JUndefined \<and>
   map entry_line
     (filter is_line (new_entries rerun_engine (snd (execute js_example rerun_engine))))
     = [1, 2, 3] \<and>
   isPaused (executionState (snd (execute js_example rerun_engine))) \<and>
   new_entries python_engine (snd (execute js_example python_engine)) = [] \<and>
   fst (execute js_example python_engine) =
     Failure (Some ''Only JavaScript execution is supported in browser'')"
proof -
  have "execute js_example python_engine =
      (Failure (Some ''Only JavaScript execution is supported in browser''), python_engine)"
    by (simp add: execute_def python_engine_def setCode_def reset_def)
  then show ?thesis
    unfolding execute_catching execute_rerun
    by (simp add: new_entries_def catching_engine_def rerun_engine_eq
        setCode_def reset_def addBreakpoint_def new_engine_def initial_state_def)
qed

text \<open>
  C1, amended. Let \<open>execute\<close> run on a source stored with the supported language tag
  and return \<open>r\<close> and the engine \<open>eng'\<close>, and let line \<open>L\<close> be armed.

  \<^item> If the call appended a line visit of \<open>L\<close>, the returned state has \<open>isPaused\<close>
    true.
  \<^item> If moreover the evaluated body lets the breakpoint error escape, that is, given
    the error the tracking hook throws at the first armed line it visits, it ends at
    once by throwing that error, whatever construct could have intercepted it, then
    \<open>r\<close> is the error result with message \<^verbatim>\<open>BREAKPOINT at line L\<close> and the last
    line-visit entry of the history has line \<open>L\<close>.
  \<^item> If the state was not paused when \<open>execute\<close> was called, the call appended no visit
    of an armed line, and the body ended normally with value \<open>v\<close>, then \<open>r\<close> is the
    success result with \<open>v\<close> and \<open>isPaused\<close> is false.
\<close>

theorem breakpoint_law:
  "language eng = ''javascript'' \<Longrightarrow> execute js eng = (r, eng') \<Longrightarrow>
   (L \<in> breakpoints (executionState eng) \<and>
    (\<exists>e \<in> set (new_entries eng eng'). is_line e \<and> entry_line e = L) \<longrightarrow>
      isPaused (executionState eng')) \<and>
   (L \<in> breakpoints (executionState eng) \<and>
    signal_escapes (js (''\"use strict\"; '' @ instrumentCode (code eng)))
      (breakpoints (executionState eng)) \<and>
    (\<exists>e \<in> set (new_entries eng eng'). is_line e \<and> entry_line e = L) \<longrightarrow>
      r = Failure (Some (''BREAKPOINT at line '' @ show_nat L)) \<and>
      isPaused (executionState eng') \<and>
      filter is_line (executionHistory (executionState eng')) \<noteq> [] \<and>
      entry_line (last (filter is_line (executionHistory (executionState eng')))) = L) \<and>
   (\<not> isPaused (executionState eng) \<and>
    (\<forall>e \<in> set (new_entries eng eng'). is_line e \<longrightarrow>
       entry_line e \<notin> breakpoints (executionState eng)) \<and>
    fst (executeInstrumented js (instrumentCode (code eng)) (executionState eng)) = Normal v \<longrightarrow>
      r = Success v \<and> \<not> isPaused (executionState eng'))"
proof (intro conjI impI; (elim conjE)?)
  let ?p = "js (''\"use strict\"; '' @ instrumentCode (code eng))"
  let ?st = "executionState eng"
  assume lang: "language eng = ''javascript''" and ex: "execute js eng = (r, eng')"
  obtain c st' where run: "run ?p ?st = (c, st')"
    by (cases "run ?p ?st")
  obtain new where new: "executionHistory st' = executionHistory ?st @ new"
    and bp: "breakpoints st' = breakpoints ?st"
    and paused: "isPaused st' \<longrightarrow>
         isPaused ?st \<or> (\<exists>e \<in> set new. is_line e \<and> entry_line e \<in> breakpoints ?st)"
    using run_effect [OF run] by blast
  have hist': "\<exists>tl. executionHistory (executionState eng') = executionHistory st' @ tl \<and>
      (\<forall>x \<in> set tl. \<not> is_line x)"
    using ex lang run
    by (cases c) (auto simp: execute_def executeInstrumented_def Let_def split: sum.splits)
  then obtain tl where tl: "executionHistory (executionState eng') = executionHistory st' @ tl"
    and ntl: "\<forall>x \<in> set tl. \<not> is_line x"
    by blast
  have ne: "new_entries eng eng' = new @ tl"
    by (simp add: new_entries_def tl new)
  have keep: "isPaused (executionState eng') = isPaused st'"
    using ex lang run
    by (cases c) (auto simp: execute_def executeInstrumented_def Let_def split: sum.splits)
  {
    assume L: "L \<in> breakpoints ?st"
      and "\<exists>e \<in> set (new_entries eng eng'). is_line e \<and> entry_line e = L"
    then obtain e where e: "e \<in> set (new_entries eng eng')" "is_line e" "entry_line e = L"
      by blast
    with ne ntl have enew: "e \<in> set new"
      by auto
    from e(3) L have "entry_line e \<in> breakpoints ?st"
      by simp
    from run_visit_pauses [OF run new enew e(2) this] keep
    show "isPaused (executionState eng')"
      by simp
  }
  {
    assume L: "L \<in> breakpoints ?st" and u: "signal_escapes ?p (breakpoints ?st)"
      and "\<exists>e \<in> set (new_entries eng eng'). is_line e \<and> entry_line e = L"
    then obtain e where e: "e \<in> set (new_entries eng eng')" "is_line e" "entry_line e = L"
      by blast
    with ne ntl have enew: "e \<in> set new"
      by auto
    from run_signal_escapes [OF u run L new enew e(2,3)]
    have c: "c = Abrupt (JError ''Error'' (''BREAKPOINT at line '' @ show_nat L))"
      and p: "isPaused st'" and ll: "is_line (last new)" "entry_line (last new) = L"
      by simp_all
    have nn: "new \<noteq> []"
      using enew by auto
    have eng': "r = Failure (Some (''BREAKPOINT at line '' @ show_nat L))"
      "isPaused (executionState eng')"
      using ex lang run c p
      by (auto simp: execute_def executeInstrumented_def Let_def)
    have fl: "filter is_line new \<noteq> [] \<and> last (filter is_line new) = last new"
      using nn ll(1) by (induction new rule: rev_induct) auto
    have "filter is_line (executionHistory (executionState eng')) =
        filter is_line (executionHistory ?st) @ filter is_line new"
      using ntl by (simp add: tl new)
    with fl ll(2) eng'
    show "r = Failure (Some (''BREAKPOINT at line '' @ show_nat L))"
      and "isPaused (executionState eng')"
      and "filter is_line (executionHistory (executionState eng')) \<noteq> []"
      and "entry_line (last (filter is_line (executionHistory (executionState eng')))) = L"
      by simp_all
  }
  {
    assume np: "\<not> isPaused ?st"
      and free: "\<forall>e \<in> set (new_entries eng eng'). is_line e \<longrightarrow> entry_line e \<notin> breakpoints ?st"
      and normal: "fst (executeInstrumented js (instrumentCode (code eng)) ?st) = Normal v"
    from normal run have c: "c = Normal v"
      by (simp add: executeInstrumented_def)
    then have eng': "r = Success v" "executionState eng' = st'"
      using ex lang run by (auto simp: execute_def executeInstrumented_def Let_def)
    then have "new_entries eng eng' = new"
      by (simp add: new_entries_def new)
    with free paused np eng'
    show "r = Success v" and "\<not> isPaused (executionState eng')"
      by auto
  }
qed

lemma signal_escapes_scenario:
  "signal_escapes (js_example (''\"use strict\"; '' @ instrumentCode (code scenario_engine)))
     (breakpoints (executionState scenario_engine))"
  by (simp add: scenario_engine_def setCode_def reset_def addBreakpoint_def new_engine_def
      initial_state_def instrument_scenario js_example_def scenario_body_def scenario_prog_def)

lemma normal_unreached:
  "fst (executeInstrumented js_example (instrumentCode (code unreached_engine))
          (executionState unreached_engine)) = Normal JUndefined"
  by (simp add: executeInstrumented_def instrument_scenario scenario_body_def
      js_example_def unreached_engine_def setCode_def reset_def addBreakpoint_def new_engine_def
      initial_state_def scenario_prog_def track_def console_log_def join_element_def
      show_int_def Let_def show_nat.simps digit_char_def)

theorem breakpoint_law_witness:
  "language scenario_engine = ''javascript'' \<and>
   2 \<in> breakpoints (executionState scenario_engine) \<and>
   signal_escapes (js_example (''\"use strict\"; '' @ instrumentCode (code scenario_engine)))
     (breakpoints (executionState scenario_engine)) \<and>
   map entry_line
     (filter is_line (new_entries scenario_engine (snd (execute js_example scenario_engine))))
     = [1, 2] \<and>
   fst (execute js_example scenario_engine) = Failure (Some ''BREAKPOINT at line 2'') \<and>
   isPaused (executionState (snd (execute js_example scenario_engine))) \<and>
   entry_line (last (filter is_line
     (executionHistory (executionState (snd (execute js_example scenario_engine)))))) = 2 \<and>
   language unreached_engine = ''javascript'' \<and>
   breakpoints (executionState unreached_engine) = {7} \<and>
   \<not> isPaused (executionState unreached_engine) \<and>
   map entry_line
     (filter is_line (new_entries unreached_engine (snd (execute js_example unreached_engine))))
     = [1, 2, 3] \<and>
   fst (execute js_example unreached_engine) = Success JUndefined \<and>
   \<not> isPaused (executionState (snd (execute js_example unreached_engine)))"
proof -
  have s: "language scenario_engine = ''javascript''"
    and u: "language unreached_engine = ''javascript''"
    by (simp_all add: scenario_engine_def unreached_engine_def setCode_def reset_def
        addBreakpoint_def)
  have pre: "2 \<in> breakpoints (executionState scenario_engine)"
    "breakpoints (executionState unreached_engine) = {7}"
    "\<not> isPaused (executionState unreached_engine)"
    "map entry_line
       (filter is_line (new_entries scenario_engine (snd (execute js_example scenario_engine))))
       = [1, 2]"
    "map entry_line
       (filter is_line (new_entries unreached_engine (snd (execute js_example unreached_engine))))
       = [1, 2, 3]"
    unfolding execute_scenario execute_unreached
    by (simp_all add: new_entries_def scenario_engine_def unreached_engine_def setCode_def
        reset_def addBreakpoint_def new_engine_def initial_state_def)
  have visit: "\<exists>e \<in> set (new_entries scenario_engine (snd (execute js_example scenario_engine))).
      is_line e \<and> entry_line e = 2"
    unfolding execute_scenario
    by (simp add: new_entries_def scenario_engine_def setCode_def
        reset_def addBreakpoint_def new_engine_def initial_state_def)
  have free: "\<forall>e \<in> set (new_entries unreached_engine (snd (execute js_example unreached_engine))).
      is_line e \<longrightarrow> entry_line e \<notin> breakpoints (executionState unreached_engine)"
    unfolding execute_unreached
    by (simp add: new_entries_def unreached_engine_def setCode_def
        reset_def addBreakpoint_def new_engine_def initial_state_def)
  from breakpoint_law [where js = js_example and eng = scenario_engine and L = 2,
      OF s surjective_pairing] pre(1) signal_escapes_scenario visit
  have a: "fst (execute js_example scenario_engine) = Failure (Some (''BREAKPOINT at line '' @ show_nat 2))"
    "isPaused (executionState (snd (execute js_example scenario_engine)))"
    "entry_line (last (filter is_line
       (executionHistory (executionState (snd (execute js_example scenario_engine)))))) = 2"
    by blast+
  from breakpoint_law [where js = js_example and eng = unreached_engine and v = JUndefined,
      OF u surjective_pairing] pre(3) free normal_unreached
  have b: "fst (execute js_example unreached_engine) = Success JUndefined"
    "\<not> isPaused (executionState (snd (execute js_example unreached_engine)))"
    by blast+
  from a have a1: "fst (execute js_example scenario_engine) = Failure (Some ''BREAKPOINT at line 2'')"
    by (simp add: show_nat.simps digit_char_def)
  from s u pre signal_escapes_scenario a1 a(2,3) b show ?thesis
    by simp
qed

section \<open>C2: the step counter\<close>

text \<open>
  C2 fails on the code. The source \<^verbatim>\<open>console.log(Symbol());\<close> is loaded into a new
  engine and run. The tracking hook appends the visit of line 1 with step 0. The console
  substitute then evaluates \<^verbatim>\<open>step++\<close>, and the join of its arguments raises before
  anything is pushed. The error path of \<open>execute\<close> evaluates \<^verbatim>\<open>step++\<close> once more and
  pushes the error entry with step 2. The call ends with a step counter of 3 over a
  history of 2 entries, whose steps 0 and 2 are not contiguous.
\<close>

theorem step_counter_symbol_run:
  "fst (execute js_example symbol_engine) =
     Failure (Some ''Cannot convert a Symbol value to a string'') \<and>
   step (executionState (snd (execute js_example symbol_engine))) = 3 \<and>
   length (executionHistory (executionState (snd (execute js_example symbol_engine)))) = 2 \<and>
   map entry_step (executionHistory (executionState (snd (execute js_example symbol_engine))))
     = [0, 2]"
  unfolding execute_symbol by simp

text \<open>
  The counter and the history stay in agreement whenever every console call of the body
  can join its arguments and the body does not end by throwing \<^verbatim>\<open>undefined\<close> or
  \<^verbatim>\<open>null\<close>.
\<close>

lemma step_consistent_snoc:
  "step_consistent st \<Longrightarrow> entry_step e = step st \<Longrightarrow>
   step_consistent (st\<lparr>step := step st + 1, executionHistory := executionHistory st @ [e]\<rparr>)"
  by (simp add: step_consistent_def)

lemma step_consistent_track:
  "step_consistent st \<Longrightarrow> step_consistent (fst (track n st))"
  by (simp add: track_def Let_def step_consistent_def)

lemma step_consistent_captureVar:
  "step_consistent st \<Longrightarrow> step_consistent (captureVar x v st)"
  by (simp add: captureVar_def Let_def step_consistent_def)

lemma step_consistent_console_log:
  "step_consistent st \<Longrightarrow> join_args args = Inr out \<Longrightarrow>
   step_consistent (fst (console_log args st)) \<and> snd (console_log args st) = None"
  by (simp add: console_log_def Let_def step_consistent_def)

lemma step_consistent_run:
  "printable p \<Longrightarrow> step_consistent st \<Longrightarrow> step_consistent (snd (run p st))"
proof (induction p arbitrary: st)
  case (Track n k h)
  from Track.prems(2) have "step_consistent (fst (track n st))"
    by (rule step_consistent_track)
  with Track.IH Track.prems(1) show ?case
    by (cases "track n st") (auto split: option.splits)
next
  case (CaptureVar x v k)
  then show ?case
    by (simp add: step_consistent_captureVar)
next
  case (ConsoleLog args k h)
  from ConsoleLog.prems(1) obtain out where out: "join_args args = Inr out" and k: "printable k"
    by auto
  from step_consistent_console_log [OF ConsoleLog.prems(2) out] ConsoleLog.IH(1) [OF k]
  show ?case
    by (cases "console_log args st") auto
qed simp_all

lemma step_consistent_execute:
  assumes "step_consistent (executionState eng)"
    and "printable (js (''\"use strict\"; '' @ instrumentCode (code eng)))"
    and "fst (execute js eng) \<noteq>
           Rejected (JError ''TypeError'' ''Cannot read properties of undefined (reading 'message')'')"
    and "fst (execute js eng) \<noteq>
           Rejected (JError ''TypeError'' ''Cannot read properties of null (reading 'message')'')"
  shows "step_consistent (executionState (snd (execute js eng)))"
proof (cases "language eng \<noteq> ''javascript''")
  case True
  with assms(1) show ?thesis
    by (simp add: execute_def)
next
  case False
  let ?p = "js (''\"use strict\"; '' @ instrumentCode (code eng))"
  obtain c st where r: "run ?p (executionState eng) = (c, st)"
    by (cases "run ?p (executionState eng)")
  have st: "step_consistent st"
    using step_consistent_run [OF assms(2,1)] r by simp
  show ?thesis
  proof (cases c)
    case (Abrupt e)
    with assms(3,4) False r obtain m where "message_of e = Inr m"
      by (cases e) (auto simp: execute_def executeInstrumented_def Let_def)
    with Abrupt False r step_consistent_snoc [OF st, of "ErrorEntry (step st) m (currentLine st)"]
    show ?thesis
      by (simp add: execute_def executeInstrumented_def Let_def)
  qed (use False r st in \<open>simp_all add: execute_def executeInstrumented_def Let_def\<close>)
qed

section \<open>C6: the executed flag\<close>

lemma lines_recorded_track: "lines_recorded st \<Longrightarrow> lines_recorded (fst (track n st))"
  by (auto simp: lines_recorded_def track_def Let_def)

lemma lines_recorded_captureVar: "lines_recorded st \<Longrightarrow> lines_recorded (captureVar x v st)"
  by (auto simp: lines_recorded_def captureVar_def Let_def)

lemma lines_recorded_console_log:
  "lines_recorded st \<Longrightarrow> lines_recorded (fst (console_log args st))"
  by (auto simp: lines_recorded_def console_log_def Let_def split: sum.splits)

lemma lines_recorded_run: "lines_recorded st \<Longrightarrow> lines_recorded (snd (run p st))"
proof (induction p arbitrary: st)
  case (Track n k h)
  from Track.prems have "lines_recorded (fst (track n st))"
    by (rule lines_recorded_track)
  then show ?case
    using Track.IH by (cases "track n st") (auto split: option.splits)
next
  case (CaptureVar x v k)
  then show ?case
    by (simp add: lines_recorded_captureVar)
next
  case (ConsoleLog args k h)
  from ConsoleLog.prems have "lines_recorded (fst (console_log args st))"
    by (rule lines_recorded_console_log)
  then show ?case
    using ConsoleLog.IH by (cases "console_log args st") (auto split: option.splits)
qed simp_all

lemma lines_recorded_error_path:
  "lines_recorded st \<Longrightarrow>
   lines_recorded
     (st\<lparr>step := s, executionHistory := executionHistory st @ [ErrorEntry t m (currentLine st)]\<rparr>)"
  by (auto simp: lines_recorded_def)

lemma lines_recorded_step: "lines_recorded (st\<lparr>step := s\<rparr>) = lines_recorded st"
  by (simp add: lines_recorded_def)

lemma lines_recorded_execute:
  assumes "lines_recorded (executionState eng)"
  shows "lines_recorded (executionState (snd (execute js eng)))"
proof (cases "language eng \<noteq> ''javascript''")
  case True
  with assms show ?thesis by (simp add: execute_def)
next
  case False
  let ?p = "js (''\"use strict\"; '' @ instrumentCode (code eng))"
  obtain c st where r: "run ?p (executionState eng) = (c, st)"
    by (cases "run ?p (executionState eng)")
  have st: "lines_recorded st"
    using lines_recorded_run [OF assms, of ?p] r by simp
  show ?thesis
    using False r st lines_recorded_error_path [OF st]
    by (cases c) (auto simp: execute_def executeInstrumented_def Let_def lines_recorded_step
        split: sum.splits)
qed

lemma reachable_lines_recorded: "reachable eng \<Longrightarrow> lines_recorded (executionState eng)"
proof (induction rule: reachable.induct)
  case (reachable_execute eng js)
  then show ?case by (simp add: lines_recorded_execute)
qed (auto simp: new_engine_def setCode_def reset_def addBreakpoint_def removeBreakpoint_def
      stepNext_def initial_state_def lines_recorded_def)

lemma no_run_yet_history: "no_run_yet eng \<Longrightarrow> executionHistory (executionState eng) = []"
  by (induction rule: no_run_yet.induct)
    (simp_all add: new_engine_def setCode_def reset_def addBreakpoint_def removeBreakpoint_def
      stepNext_def initial_state_def)

lemma node_executed:
  "nd \<in> set (nodes (getExecutionFlow eng)) \<Longrightarrow>
   0 < node_line nd \<and>
   executed nd = (\<exists>h \<in> set (executionHistory (executionState eng)). entry_line h = node_line nd)"
  by (auto simp: nodes_getExecutionFlow list_ex_iff)

text \<open>
  C6. On every engine reachable through the public operations, the \<open>executed\<close> flag of
  each flow node is true exactly when some line-visit entry of the history has the
  node's line. On an engine whose execution state has seen no run, all flags are false.
\<close>

theorem executed_flag:
  "(reachable eng \<longrightarrow>
     (\<forall>nd \<in> set (nodes (getExecutionFlow eng)).
        executed nd \<longleftrightarrow>
          (\<exists>h \<in> set (executionHistory (executionState eng)).
             is_line h \<and> entry_line h = node_line nd))) \<and>
   (no_run_yet eng \<longrightarrow> (\<forall>nd \<in> set (nodes (getExecutionFlow eng)). \<not> executed nd))"
proof (intro conjI impI ballI)
  fix nd
  assume r: "reachable eng" and nd: "nd \<in> set (nodes (getExecutionFlow eng))"
  from reachable_lines_recorded [OF r]
  have inv: "\<And>h. h \<in> set (executionHistory (executionState eng)) \<Longrightarrow> entry_line h = 0 \<or>
        (\<exists>h' \<in> set (executionHistory (executionState eng)).
           is_line h' \<and> entry_line h' = entry_line h)"
    by (simp add: lines_recorded_def)
  from node_executed [OF nd]
  have pos: "0 < node_line nd"
    and ex: "executed nd =
      (\<exists>h \<in> set (executionHistory (executionState eng)). entry_line h = node_line nd)"
    by simp_all
  show "executed nd \<longleftrightarrow>
          (\<exists>h \<in> set (executionHistory (executionState eng)).
             is_line h \<and> entry_line h = node_line nd)"
  proof
    assume "executed nd"
    with ex obtain h where h: "h \<in> set (executionHistory (executionState eng))"
      "entry_line h = node_line nd"
      by blast
    with inv [OF h(1)] pos show "\<exists>h \<in> set (executionHistory (executionState eng)).
             is_line h \<and> entry_line h = node_line nd"
      by auto
  next
    assume "\<exists>h \<in> set (executionHistory (executionState eng)).
             is_line h \<and> entry_line h = node_line nd"
    with ex show "executed nd"
      by blast
  qed
next
  fix nd
  assume "no_run_yet eng" and nd: "nd \<in> set (nodes (getExecutionFlow eng))"
  then show "\<not> executed nd"
    using node_executed [OF nd] by (simp add: no_run_yet_history)
qed

lemma split_scenario_source:
  "split_lines scenario_source = [''let x = 1;'', ''let y = 2;'', ''console.log(x + y);'']"
  by (simp add: scenario_source_def newline_def split_lines_def)

theorem executed_flag_witness:
  "reachable (snd (execute js_example scenario_engine)) \<and>
   map entry_line (filter is_line
     (executionHistory (executionState (snd (execute js_example scenario_engine))))) = [1, 2] \<and>
   map node_line (nodes (getExecutionFlow (snd (execute js_example scenario_engine))))
     = [1, 2, 3] \<and>
   map executed (nodes (getExecutionFlow (snd (execute js_example scenario_engine))))
     = [True, True, False] \<and>
   no_run_yet scenario_engine \<and>
   map executed (nodes (getExecutionFlow scenario_engine)) = [False, False, False]"
proof -
  have r: "reachable (snd (execute js_example scenario_engine))"
    unfolding scenario_engine_def by (intro reachable.intros)
  have n: "no_run_yet scenario_engine"
    unfolding scenario_engine_def by (intro no_run_yet.intros)
  have e: "map executed (nodes (getExecutionFlow scenario_engine)) = [False, False, False]"
    by (simp add: nodes_getExecutionFlow scenario_engine_def setCode_def reset_def
        addBreakpoint_def new_engine_def initial_state_def split_scenario_source trim_def
        is_ws_def)
  from executed_flag [of "snd (execute js_example scenario_engine)"]
    executed_flag [of scenario_engine] r n e show ?thesis
    unfolding execute_scenario
    by (simp add: nodes_getExecutionFlow split_scenario_source trim_def is_ws_def)
qed

section \<open>C7: the hotspots\<close>

lemma keys_bump: "set (map fst (bump l kcs)) = insert l (set (map fst kcs))"
  by (induction l kcs rule: bump.induct) auto

lemma sorted_bump:
  "sorted_wrt (<) (map fst kcs) \<Longrightarrow> sorted_wrt (<) (map fst (bump l kcs))"
proof (induction l kcs rule: bump.induct)
  case (1 l)
  then show ?case by simp
next
  case (2 l k c kcs)
  then show ?case
    using keys_bump [of l kcs] by (auto simp del: set_map)
qed

lemma map_of_bump:
  "sorted_wrt (<) (map fst kcs) \<Longrightarrow>
   map_of (bump l kcs) = (map_of kcs)(l \<mapsto> (case map_of kcs l of None \<Rightarrow> 1 | Some c \<Rightarrow> c + 1))"
proof (induction l kcs rule: bump.induct)
  case (1 l)
  then show ?case by simp
next
  case (2 l k c kcs)
  show ?case
  proof (cases "l = k")
    case True
    then show ?thesis by (auto simp: fun_eq_iff)
  next
    case False
    show ?thesis
    proof (cases "l < k")
      case True
      with "2.prems" have "l \<notin> fst ` set kcs"
        by auto
      then have "map_of kcs l = None"
        by (simp add: map_of_eq_None_iff)
      with True False show ?thesis
        by (auto simp: fun_eq_iff)
    next
      case gt: False
      with False "2.IH" "2.prems" show ?thesis
        by (auto simp: fun_eq_iff)
    qed
  qed
qed

lemma visits_snoc:
  "visits l (hist @ [e]) = visits l hist + (if is_line e \<and> entry_line e = l then 1 else 0)"
  by (simp add: visits_def)

text \<open>After the counting loop every visited line has its number of visits as count.\<close>

lemma fold_count_step:
  "sorted_wrt (<) (map fst (fold count_step hist [])) \<and>
   (\<forall>l. map_of (fold count_step hist []) l =
          (if visits l hist = 0 then None else Some (visits l hist)))"
proof (induction hist rule: rev_induct)
  case Nil
  then show ?case by (simp add: visits_def)
next
  case (snoc e hist)
  then show ?case
    by (auto simp: count_step_def sorted_bump map_of_bump visits_snoc)
qed

lemma visit_counts_sorted: "sorted_wrt (<) (map fst (visit_counts eng))"
  using fold_count_step by (simp add: visit_counts_def)

lemma visit_counts_distinct: "distinct (map fst (visit_counts eng))"
  using visit_counts_sorted [of eng] strict_sorted_iff by blast

lemma visit_counts_mem:
  "(l, c) \<in> set (visit_counts eng) \<longleftrightarrow>
   0 < c \<and> c = visits l (executionHistory (executionState eng))"
proof -
  have "(l, c) \<in> set (visit_counts eng) \<longleftrightarrow> map_of (visit_counts eng) l = Some c"
    using visit_counts_distinct [of eng] by auto
  also have "\<dots> \<longleftrightarrow> 0 < c \<and> c = visits l (executionHistory (executionState eng))"
    using fold_count_step [of "executionHistory (executionState eng)"]
    by (auto simp: visit_counts_def)
  finally show ?thesis .
qed

lemma hotspots_eq:
  "hotspots (analyzePerformance eng) =
     map (\<lambda>(line, count).
            \<lparr>hotspot_line = line, executionCount = count,
             hotspot_code = line_at (split_lines (code eng)) line\<rparr>)
       (sort_key (\<lambda>(line, count). - int count)
          (filter (\<lambda>(line, count). count > 10) (visit_counts eng)))"
  by (simp add: analyzePerformance_def Let_def)

lemma hotspot_lines:
  "map hotspot_line (hotspots (analyzePerformance eng)) =
     map fst (sort_key (\<lambda>(line, count). - int count)
                (filter (\<lambda>(line, count). count > 10) (visit_counts eng)))"
  by (simp add: hotspots_eq case_prod_beta cong: map_cong)

lemma hotspot_counts:
  "map executionCount (hotspots (analyzePerformance eng)) =
     map snd (sort_key (\<lambda>(line, count). - int count)
                (filter (\<lambda>(line, count). count > 10) (visit_counts eng)))"
  by (simp add: hotspots_eq case_prod_beta cong: map_cong)

lemma hotspot_line_set:
  "set (map hotspot_line (hotspots (analyzePerformance eng))) =
     {l. 10 < visits l (executionHistory (executionState eng))}"
proof -
  have "set (map hotspot_line (hotspots (analyzePerformance eng))) =
      fst ` {(l, c). (l, c) \<in> set (visit_counts eng) \<and> 10 < c}"
    unfolding hotspot_lines by (auto simp: image_iff)
  also have "\<dots> = {l. 10 < visits l (executionHistory (executionState eng))}"
    by (auto simp: visit_counts_mem image_iff)
  finally show ?thesis .
qed

lemma hotspot_line_distinct:
  "distinct (map hotspot_line (hotspots (analyzePerformance eng)))"
proof -
  let ?ys = "filter (\<lambda>(line, count). count > 10) (visit_counts eng)"
  have "distinct (map fst ?ys)"
    using visit_counts_distinct [of eng] by (rule distinct_map_filter)
  then have "distinct (map fst (sort_key (\<lambda>(line, count). - int count) ?ys))"
    by (simp add: distinct_map)
  then show ?thesis
    unfolding hotspot_lines .
qed

lemma hotspot_count_of_line:
  "h \<in> set (hotspots (analyzePerformance eng)) \<Longrightarrow>
   executionCount h = visits (hotspot_line h) (executionHistory (executionState eng))"
  by (auto simp: hotspots_eq visit_counts_mem)

lemma hotspot_counts_descending:
  "sorted_wrt (\<ge>) (map executionCount (hotspots (analyzePerformance eng)))"
proof -
  let ?ys = "sort_key (\<lambda>(line, count). - int count)
               (filter (\<lambda>(line, count). count > 10) (visit_counts eng))"
  have "sorted (map (\<lambda>(line, count). - int count) ?ys)"
    by (rule sorted_sort_key)
  then have "sorted_wrt (\<lambda>a b. snd a \<ge> snd b) ?ys"
    by (simp add: sorted_wrt_map case_prod_beta)
  then show ?thesis
    unfolding hotspot_counts by (simp add: sorted_wrt_map)
qed

text \<open>
  C7. The lines listed in \<open>hotspots\<close> are exactly the lines with more than 10
  line-visit entries in the history, each listed once with its number of visits as
  \<open>executionCount\<close>, in order of descending count. A line visited 11 times while no
  other line is visited more than 10 times is the only hotspot; a line visited exactly
  10 times is not among the hotspots.
\<close>

theorem hotspots_threshold_and_order:
  "set (map hotspot_line (hotspots (analyzePerformance eng))) =
     {l. 10 < visits l (executionHistory (executionState eng))} \<and>
   distinct (map hotspot_line (hotspots (analyzePerformance eng))) \<and>
   (\<forall>h \<in> set (hotspots (analyzePerformance eng)).
      executionCount h = visits (hotspot_line h) (executionHistory (executionState eng))) \<and>
   sorted_wrt (\<ge>) (map executionCount (hotspots (analyzePerformance eng))) \<and>
   (visits l (executionHistory (executionState eng)) = 11 \<and>
    (\<forall>l'. l' \<noteq> l \<longrightarrow> visits l' (executionHistory (executionState eng)) \<le> 10) \<longrightarrow>
      map hotspot_line (hotspots (analyzePerformance eng)) = [l]) \<and>
   (visits l (executionHistory (executionState eng)) = 10 \<longrightarrow>
      l \<notin> set (map hotspot_line (hotspots (analyzePerformance eng))))"
proof (intro conjI impI ballI)
  assume a: "visits l (executionHistory (executionState eng)) = 11 \<and>
    (\<forall>l'. l' \<noteq> l \<longrightarrow> visits l' (executionHistory (executionState eng)) \<le> 10)"
  let ?ls = "map hotspot_line (hotspots (analyzePerformance eng))"
  have "{l'. 10 < visits l' (executionHistory (executionState eng))} = {l}"
    using a by (auto simp: not_less [symmetric])
  then have s: "set ?ls = {l}"
    by (simp only: hotspot_line_set)
  have d: "distinct ?ls"
    by (rule hotspot_line_distinct)
  from s obtain x xs where ls: "?ls = x # xs"
    by (cases ?ls) auto
  with s d have "x = l" and "set xs \<subseteq> {l}" and "l \<notin> set xs"
    by auto
  then have "xs = []"
    by (cases xs) auto
  with ls \<open>x = l\<close> show "?ls = [l]"
    by simp
next
  assume "visits l (executionHistory (executionState eng)) = 10"
  then show "l \<notin> set (map hotspot_line (hotspots (analyzePerformance eng)))"
    by (simp only: hotspot_line_set) simp
qed (simp_all only: hotspot_line_set hotspot_line_distinct hotspot_count_of_line
      hotspot_counts_descending)

lemma hot_visits:
  "visits l (executionHistory (executionState hot_engine)) =
     (if l = 5 then 11 else if l = 7 then 10 else 0)"
  by (simp add: hot_engine_def visits_def)

theorem hotspots_threshold_and_order_witness:
  "visits 5 (executionHistory (executionState hot_engine)) = 11 \<and>
   visits 7 (executionHistory (executionState hot_engine)) = 10 \<and>
   map hotspot_line (hotspots (analyzePerformance hot_engine)) = [5] \<and>
   map executionCount (hotspots (analyzePerformance hot_engine)) = [11] \<and>
   7 \<notin> set (map hotspot_line (hotspots (analyzePerformance hot_engine)))"
proof -
  have a: "visits 5 (executionHistory (executionState hot_engine)) = 11 \<and>
    (\<forall>l'. l' \<noteq> 5 \<longrightarrow> visits l' (executionHistory (executionState hot_engine)) \<le> 10)"
    by (simp add: hot_visits)
  have b: "visits 7 (executionHistory (executionState hot_engine)) = 10"
    by (simp add: hot_visits)
  from hotspots_threshold_and_order [of hot_engine 5] a
  have l: "map hotspot_line (hotspots (analyzePerformance hot_engine)) = [5]"
    and c: "\<forall>h \<in> set (hotspots (analyzePerformance hot_engine)).
      executionCount h = visits (hotspot_line h) (executionHistory (executionState hot_engine))"
    by blast+
  from l obtain h where h: "hotspots (analyzePerformance hot_engine) = [h]" "hotspot_line h = 5"
    by auto
  with c a have "map executionCount (hotspots (analyzePerformance hot_engine)) = [11]"
    by simp
  with a b l show ?thesis
    by simp
qed

end
